theory Spec2Isabelle
  imports Complex_Main
begin

section \<open>Tensors and the tensor primitives used by fusion\_dssm\_v2.py\<close>

text \<open>
  The model file works on 2-D float tensors. A tensor is modelled by its column count
  and its list of rows, so that a tensor with no rows still has a width, as a torch
  tensor of shape (0, w) has. Values are real numbers: the exact-arithmetic reading of
  the float computation. Every exception of the tensor library is a value of
  \<open>error\<close>; one constructor per failure site.
\<close>

datatype error =
    EmptyCat            \<comment> \<open>torch.cat of an empty list\<close>
  | CatMismatch         \<comment> \<open>torch.cat of tensors whose other dimension differs\<close>
  | SplitSizes          \<comment> \<open>torch.split: the sizes do not sum to the dimension\<close>
  | IndexOutOfRange     \<comment> \<open>index\_select or advanced indexing beyond the rows\<close>
  | ListIndex           \<comment> \<open>Python list index out of range\<close>
  | ReshapeInvalid      \<comment> \<open>reshape to a shape that does not fit\<close>
  | EinsumMismatch      \<comment> \<open>einsum operands that do not broadcast\<close>
  | LinearShape         \<comment> \<open>nn.Linear applied to the wrong input width\<close>
  | KeyError string     \<comment> \<open>missing dictionary key\<close>
  | AttributeError string \<comment> \<open>missing attribute\<close>
  | ValueError string   \<comment> \<open>list.index of an absent element\<close>
  | ModuleError nat     \<comment> \<open>an error raised inside an external module\<close>

record tensor =
  ncols :: nat
  rows :: "real list list"

definition size0 :: "tensor \<Rightarrow> nat" where
  "size0 t = length (rows t)"

text \<open>Every row of a torch tensor has as many entries as the tensor has columns: a
  tensor value of the model with this property is rectangular.\<close>

definition rect :: "tensor \<Rightarrow> bool" where
  "rect t \<longleftrightarrow> list_all (\<lambda>r. length r = ncols t) (rows t)"

definition bind_e :: "error + 'a \<Rightarrow> ('a \<Rightarrow> error + 'b) \<Rightarrow> error + 'b" where
  "bind_e m f = (case m of Inl e \<Rightarrow> Inl e | Inr x \<Rightarrow> f x)"

fun sequence_e :: "(error + 'a) list \<Rightarrow> error + 'a list" where
  "sequence_e [] = Inr []"
| "sequence_e (m # ms) =
     (case m of
        Inl e \<Rightarrow> Inl e
      | Inr x \<Rightarrow> (case sequence_e ms of Inl e \<Rightarrow> Inl e | Inr xs \<Rightarrow> Inr (x # xs)))"

text \<open>torch.index\_select(t, 0, idx) and t[idx] for an index tensor: the rows of
  \<open>t\<close> at the positions \<open>idx\<close>, in the order of \<open>idx\<close>; an index beyond the rows
  raises.\<close>

definition index_select :: "tensor \<Rightarrow> nat list \<Rightarrow> error + tensor" where
  "index_select t idx =
     (if list_all (\<lambda>i. i < size0 t) idx
      then Inr \<lparr>ncols = ncols t, rows = map (\<lambda>i. rows t ! i) idx\<rparr>
      else Inl IndexOutOfRange)"

text \<open>torch.split(t, sizes, dim=-1): the row \<open>r\<close> is cut into consecutive pieces of
  the given sizes; block \<open>k\<close> holds piece \<open>k\<close> of every row. The sizes must sum to
  the width.\<close>

fun split_row :: "nat list \<Rightarrow> real list \<Rightarrow> real list list" where
  "split_row [] r = []"
| "split_row (d # ds) r = take d r # split_row ds (drop d r)"

definition split_last :: "tensor \<Rightarrow> nat list \<Rightarrow> error + tensor list" where
  "split_last t sizes =
     (if sum_list sizes = ncols t
      then Inr (map (\<lambda>k. \<lparr>ncols = sizes ! k,
                           rows = map (\<lambda>r. split_row sizes r ! k) (rows t)\<rparr>)
                    [0..<length sizes])
      else Inl SplitSizes)"

text \<open>torch.cat(ts, dim=-1): all tensors have the same number of rows; row \<open>i\<close> of the
  result is the rows \<open>i\<close> of the operands one after the other.\<close>

definition cat_last :: "tensor list \<Rightarrow> error + tensor" where
  "cat_last ts =
     (case ts of
        [] \<Rightarrow> Inl EmptyCat
      | t # _ \<Rightarrow>
          if list_all (\<lambda>u. size0 u = size0 t) ts
          then Inr \<lparr>ncols = sum_list (map ncols ts),
                    rows = map (\<lambda>i. concat (map (\<lambda>u. rows u ! i) ts)) [0..<size0 t]\<rparr>
          else Inl CatMismatch)"

text \<open>torch.cat(ts) along dimension 0: all tensors have the same width; the rows are
  appended.\<close>

definition cat0 :: "tensor list \<Rightarrow> error + tensor" where
  "cat0 ts =
     (case ts of
        [] \<Rightarrow> Inl EmptyCat
      | t # _ \<Rightarrow>
          if list_all (\<lambda>u. ncols u = ncols t) ts
          then Inr \<lparr>ncols = ncols t, rows = concat (map rows ts)\<rparr>
          else Inl CatMismatch)"

text \<open>t[n:]: the rows from position \<open>n\<close> on.\<close>

definition slice_from :: "tensor \<Rightarrow> nat \<Rightarrow> tensor" where
  "slice_from t n = \<lparr>ncols = ncols t, rows = drop n (rows t)\<rparr>"

section \<open>\_perm\_feat\<close>

text \<open>
  torch.randperm is the only source of randomness in the file. Its outcomes are an
  explicit argument: \<open>rand k n\<close> is the tensor returned by the \<open>k\<close>-th call of
  randperm in one invocation, called with size \<open>n\<close>. The contract of randperm is that
  the outcome is a permutation of \<open>0, ..., n - 1\<close>.
\<close>

type_synonym randperm = "nat \<Rightarrow> nat \<Rightarrow> nat list"

definition randperm_ok :: "randperm \<Rightarrow> bool" where
  "randperm_ok rand \<longleftrightarrow> (\<forall>k n. length (rand k n) = n \<and> set (rand k n) = {..<n})"

text \<open>The body of the inner loop of \_perm\_feat with the final concatenation of one
  fold: the blocks whose position is in \<open>perm_feats_index\<close> are indexed by
  \<open>perm\<close>, the others are appended as they are.\<close>

definition perm_blocks :: "tensor list \<Rightarrow> nat list \<Rightarrow> nat list \<Rightarrow> (error + tensor) list" where
  "perm_blocks feature_list perm_feats_index perm =
     map (\<lambda>(idx, f). if idx \<in> set perm_feats_index then index_select f perm else Inr f)
         (enumerate 0 feature_list)"

definition perm_fold :: "randperm \<Rightarrow> tensor list \<Rightarrow> nat list \<Rightarrow> nat \<Rightarrow> error + tensor" where
  "perm_fold rand feature_list perm_feats_index k =
     (case feature_list of
        [] \<Rightarrow> Inl ListIndex
      | f0 # _ \<Rightarrow>
          bind_e (sequence_e (perm_blocks feature_list perm_feats_index (rand k (size0 f0))))
                 cat_last)"

definition perm_feat :: "randperm \<Rightarrow> tensor \<Rightarrow> nat list \<Rightarrow> nat list \<Rightarrow> int \<Rightarrow> error + tensor" where
  "perm_feat rand feature feat_dims perm_feats_index perm_nflods =
     bind_e (split_last feature feat_dims) (\<lambda>feature_list.
     bind_e (sequence_e (map (perm_fold rand feature_list perm_feats_index)
                             [0..<nat perm_nflods]))
            cat0)"

section \<open>DSSMTower\<close>

text \<open>torch.nn.Linear(in\_features, out\_features): \<open>y = x W\<^sup>T + b\<close> on every row. The
  weight and the bias are functions of the positions, so their shapes are those of the
  constructor by construction.\<close>

record linear =
  in_features :: nat
  out_features :: nat
  weight :: "nat \<Rightarrow> nat \<Rightarrow> real"
  bias :: "nat \<Rightarrow> real"

definition linear_forward :: "linear \<Rightarrow> tensor \<Rightarrow> error + tensor" where
  "linear_forward L x =
     (if ncols x = in_features L
      then Inr \<lparr>ncols = out_features L,
                rows = map (\<lambda>r. map (\<lambda>k. (\<Sum>j\<leftarrow>[0..<in_features L]. r ! j * weight L k j) + bias L k)
                                    [0..<out_features L])
                           (rows x)\<rparr>
      else Inl LinearShape)"

text \<open>torch.nn.functional.normalize(x, p=2.0, dim=1) with its default \<open>eps = 1e-12\<close>:
  every row \<open>v\<close> becomes \<open>v / max(\<parallel>v\<parallel>\<^sub>2, eps)\<close>.\<close>

definition l2norm :: "real list \<Rightarrow> real" where
  "l2norm r = sqrt (\<Sum>x\<leftarrow>r. x\<^sup>2)"

definition normalize_eps :: real where
  "normalize_eps = 1 / 10 ^ 12"

definition F_normalize :: "tensor \<Rightarrow> tensor" where
  "F_normalize t =
     \<lparr>ncols = ncols t,
      rows = map (\<lambda>r. map (\<lambda>x. x / max (l2norm r) normalize_eps) r) (rows t)\<rparr>"

text \<open>match\_model\_pb2.Similarity: the source names the value COSINE only; every other
  value of the enum is an \<open>OtherSimilarity\<close>.\<close>

datatype Similarity = COSINE | OtherSimilarity nat

text \<open>The modules InputSENet and MLP are defined outside this file: their forward
  functions are parameters of the tower. An MLP object also answers \<open>output_dim()\<close>.\<close>

type_synonym module = "tensor \<Rightarrow> error + tensor"

record MLP =
  mlp_forward :: module
  mlp_output_dim :: nat

text \<open>The attributes of a DSSMTower object. \<open>tower_output_dim\<close> and
  \<open>tower_similarity\<close> are \<open>self._output_dim\<close> and \<open>self._similarity\<close>, which the
  constructor of the base class MatchTowerWoEG (outside this file) stores from its
  arguments of the same names. \<open>senet\<close> and \<open>output_layer\<close> (self.output) exist only when the
  constructor created them.\<close>

record DSSMTower =
  tower_output_dim :: int
  tower_similarity :: Similarity
  tower_use_senet :: bool
  feature_group_dims :: "nat list"
  senet :: "module option"
  mlp :: MLP
  output_layer :: "linear option"
  perm_feats_index :: "nat list"
  perm_nflods :: int

definition forward ::
  "DSSMTower \<Rightarrow> randperm \<Rightarrow> tensor \<Rightarrow> nat list option \<Rightarrow> bool \<Rightarrow> error + tensor" where
  "forward T rand feature tower_index permute =
     bind_e (case tower_index of None \<Rightarrow> Inr feature
             | Some ix \<Rightarrow> index_select feature ix) (\<lambda>feature.
     bind_e (if permute \<and> length (perm_feats_index T) > 0
             then perm_feat rand feature (feature_group_dims T) (perm_feats_index T)
                    (perm_nflods T)
             else Inr feature) (\<lambda>feature.
     bind_e (if tower_use_senet T
             then (case senet T of None \<Rightarrow> Inl (AttributeError ''senet'')
                   | Some s \<Rightarrow> s feature)
             else Inr feature) (\<lambda>feature.
     bind_e (mlp_forward (mlp T) feature) (\<lambda>out.
     bind_e (if tower_output_dim T > 0
             then (case output_layer T of None \<Rightarrow> Inl (AttributeError ''output'')
                   | Some L \<Rightarrow> linear_forward L out)
             else Inr out) (\<lambda>out.
     Inr (if tower_similarity T = COSINE then F_normalize out else out))))))"

section \<open>FusionDSSMV2\<close>

subsection \<open>Configuration messages and the batch\<close>

text \<open>The protobuf messages, with the fields this file reads. \<open>input_name\<close> is the
  field \<open>input\<close> of tower\_pb2.Tower and \<open>mlp_config\<close> its field \<open>mlp\<close>, whose
  content only the MLP constructor reads.\<close>

record 'c Tower =
  input_name :: string
  mlp_config :: 'c

record PermFeat =
  tower_name :: string
  features :: "string list"
  nflods :: int

record FeatureGroupConfig =
  group_name :: string
  feature_names :: "string list"
  sequence_groups :: "string list list"

record 'c ModelConfig =
  feature_groups :: "FeatureGroupConfig list"
  user_tower :: "'c Tower list"
  item_tower :: "'c Tower"
  user_tower_perm_feat :: "PermFeat list"
  output_dim :: int
  similarity :: Similarity
  use_senet :: bool
  temperature :: real

record BaseFeature =
  name :: string

text \<open>A batch: its labels (1-D integer tensors by name) and the feature data that only
  the embedding group reads.\<close>

record 'f Batch =
  labels :: "string \<rightharpoonup> int list"
  data :: 'f

text \<open>An EmbeddingGroup object (outside this file): its forward function from a batch
  to the embedded features of every feature group, and \<open>group_dims\<close>.\<close>

record 'f EmbeddingGroup =
  eg_forward :: "'f Batch \<Rightarrow> error + (string \<rightharpoonup> tensor)"
  group_dims :: "string \<Rightarrow> nat list"

subsection \<open>Dictionaries and attributes\<close>

definition lookup :: "(string \<rightharpoonup> 'a) \<Rightarrow> string \<Rightarrow> error + 'a" where
  "lookup d k = (case d k of None \<Rightarrow> Inl (KeyError k) | Some v \<Rightarrow> Inr v)"

text \<open>\<open>{key(x): x for x in xs}\<close>: a later element replaces an earlier one with the
  same key.\<close>

definition dict_of :: "('a \<Rightarrow> string) \<Rightarrow> 'a list \<Rightarrow> (string \<rightharpoonup> 'a)" where
  "dict_of key xs = foldl (\<lambda>d x. d(key x \<mapsto> x)) Map.empty xs"

text \<open>\<open>ys.index(x)\<close>: the first position of \<open>x\<close>, ValueError when there is none.\<close>

fun index_of :: "string list \<Rightarrow> string \<Rightarrow> error + nat" where
  "index_of [] x = Inl (ValueError x)"
| "index_of (y # ys) x =
     (if y = x then Inr 0 else bind_e (index_of ys x) (\<lambda>n. Inr (Suc n)))"

subsection \<open>The model object\<close>

text \<open>The attributes of a FusionDSSMV2 object that this file reads. \<open>attrs\<close> holds
  the tower modules by attribute name: \<open>setattr(self, f"{input}_tower", ...)\<close> and
  \<open>self.item_tower = ...\<close> write it, \<open>getattr\<close> and \<open>self.item_tower\<close> read it.
  \<open>training\<close> is the flag of nn.Module; \<open>sim\<close> is the method of the base class
  FusionMatchModel, outside this file.\<close>

record ('f, 'c) FusionDSSMV2 =
  model_config :: "'c ModelConfig"
  embedding_group :: "'f EmbeddingGroup"
  user_tower_perm_feat_dict :: "string \<rightharpoonup> PermFeat"
  attrs :: "string \<rightharpoonup> DSSMTower"
  training :: bool
  sim :: "tensor \<Rightarrow> tensor \<Rightarrow> error + tensor"

definition getattr :: "('f, 'c) FusionDSSMV2 \<Rightarrow> string \<Rightarrow> error + DSSMTower" where
  "getattr M a = (case attrs M a of None \<Rightarrow> Inl (AttributeError a) | Some T \<Rightarrow> Inr T)"

subsection \<open>predict\<close>

text \<open>\<open>torch.where(channel == i)[0]\<close>: the positions of the 1-D tensor \<open>channel\<close>
  that hold \<open>i\<close>, in increasing order.\<close>

definition where_eq :: "int list \<Rightarrow> nat \<Rightarrow> nat list" where
  "where_eq channel i = filter (\<lambda>j. channel ! j = int i) [0..<length channel]"

text \<open>A 3-D tensor of shape \<open>(length (slices t), nrows3 t, ncols3 t)\<close>.\<close>

record tensor3 =
  nrows3 :: nat
  ncols3 :: nat
  slices :: "real list list list"

text \<open>\<open>t.reshape((n, -1, t.size(1)))\<close>: the inferred dimension exists only when
  \<open>n\<close> and the width are positive and \<open>n\<close> divides the number of rows; slice \<open>b\<close>
  then holds the rows \<open>b * m, ..., b * m + m - 1\<close> of \<open>t\<close>, for \<open>m\<close> the inferred
  dimension.\<close>

definition reshape3 :: "tensor \<Rightarrow> int \<Rightarrow> error + tensor3" where
  "reshape3 t n =
     (if n \<le> 0 \<or> ncols t = 0 \<or> size0 t mod nat n \<noteq> 0 then Inl ReshapeInvalid
      else Inr \<lparr>nrows3 = size0 t div nat n, ncols3 = ncols t,
                slices = map (\<lambda>b. take (size0 t div nat n)
                                       (drop (b * (size0 t div nat n)) (rows t)))
                             [0..<nat n]\<rparr>)"

text \<open>The size of a dimension that two einsum operands share: the sizes are equal, or
  one of them is 1 and is broadcast.\<close>

definition bdim :: "nat \<Rightarrow> nat \<Rightarrow> nat option" where
  "bdim a b = (if a = b then Some a else if a = 1 then Some b
               else if b = 1 then Some a else None)"

text \<open>\<open>torch.einsum("bij,ij->ib", A, P)\<close>: entry \<open>(i, b)\<close> of the result is
  \<open>\<Sum>j. A[b][i][j] * P[i][j]\<close>, an operand of size 1 in \<open>i\<close> or \<open>j\<close> being read at
  position 0.\<close>

definition einsum_bij_ij_ib :: "tensor3 \<Rightarrow> tensor \<Rightarrow> error + tensor" where
  "einsum_bij_ij_ib A P =
     (case (bdim (nrows3 A) (size0 P), bdim (ncols3 A) (ncols P)) of
        (Some I, Some J) \<Rightarrow>
          Inr \<lparr>ncols = length (slices A),
               rows = map (\<lambda>i. map (\<lambda>b. \<Sum>j\<leftarrow>[0..<J].
                                 slices A ! b ! (if nrows3 A = 1 then 0 else i)
                                            ! (if ncols3 A = 1 then 0 else j)
                                 * rows P ! (if size0 P = 1 then 0 else i)
                                          ! (if ncols P = 1 then 0 else j))
                                    [0..<length (slices A)])
                          [0..<I]\<rparr>
      | _ \<Rightarrow> Inl EinsumMismatch)"

text \<open>\<open>t / c\<close> for a Python float \<open>c\<close>.\<close>

definition div_scalar :: "tensor \<Rightarrow> real \<Rightarrow> tensor" where
  "div_scalar t c = \<lparr>ncols = ncols t, rows = map (map (\<lambda>x. x / c)) (rows t)\<rparr>"

text \<open>One iteration of the loop of predict, for the user tower number \<open>i\<close> with
  configuration \<open>tower_cfg\<close>: the value stored in the prediction dictionary.
  \<open>rand c\<close> are the outcomes of randperm during the \<open>c\<close>-th tower call of one predict:
  call 0 is the item tower, calls \<open>2 * i + 1\<close> and \<open>2 * i + 2\<close> are the plain and the
  permuted call of user tower \<open>i\<close>.\<close>

definition predict_tower ::
  "('f, 'c) FusionDSSMV2 \<Rightarrow> (nat \<Rightarrow> randperm) \<Rightarrow> 'f Batch \<Rightarrow> (string \<rightharpoonup> tensor) \<Rightarrow> tensor
   \<Rightarrow> nat \<Rightarrow> 'c Tower \<Rightarrow> error + tensor" where
  "predict_tower M rand batch grouped_features item_tower_emb i tower_cfg =
     bind_e (lookup (labels batch) ''channel'') (\<lambda>channel.
     let tower_index = where_eq channel i;
         batch_size = length channel in
     bind_e (getattr M (input_name tower_cfg @ ''_tower'')) (\<lambda>tower.
     bind_e (lookup grouped_features (input_name tower_cfg)) (\<lambda>feature.
     bind_e (forward tower (rand (2 * i + 1)) feature (Some tower_index) False) (\<lambda>user_emb.
     bind_e (index_select item_tower_emb tower_index) (\<lambda>pos_item_emb.
     let neg_item_emb = slice_from item_tower_emb batch_size in
     bind_e (cat0 [pos_item_emb, neg_item_emb]) (\<lambda>items.
     bind_e (sim M user_emb items) (\<lambda>ui_sim.
     bind_e (if input_name tower_cfg \<in> dom (user_tower_perm_feat_dict M) \<and> training M
             then
               bind_e (getattr M (input_name tower_cfg @ ''_tower'')) (\<lambda>tower.
               bind_e (lookup grouped_features (input_name tower_cfg)) (\<lambda>feature.
               bind_e (forward tower (rand (2 * i + 2)) feature (Some tower_index) True)
                 (\<lambda>user_emb.
               bind_e (lookup (user_tower_perm_feat_dict M) (input_name tower_cfg)) (\<lambda>pf.
               bind_e (reshape3 user_emb (nflods pf)) (\<lambda>user_emb.
               bind_e (einsum_bij_ij_ib user_emb pos_item_emb) (\<lambda>neg_ui_sim.
               cat_last [ui_sim, neg_ui_sim]))))))
             else Inr ui_sim) (\<lambda>ui_sim.
     Inr (div_scalar ui_sim (temperature (model_config M)))))))))))"

fun predict_loop ::
  "('f, 'c) FusionDSSMV2 \<Rightarrow> (nat \<Rightarrow> randperm) \<Rightarrow> 'f Batch \<Rightarrow> (string \<rightharpoonup> tensor) \<Rightarrow> tensor
   \<Rightarrow> (nat \<times> 'c Tower) list \<Rightarrow> (string \<rightharpoonup> tensor) \<Rightarrow> error + (string \<rightharpoonup> tensor)" where
  "predict_loop M rand batch grouped_features item_tower_emb [] prediction_dict =
     Inr prediction_dict"
| "predict_loop M rand batch grouped_features item_tower_emb ((i, tower_cfg) # rest)
       prediction_dict =
     bind_e (predict_tower M rand batch grouped_features item_tower_emb i tower_cfg) (\<lambda>v.
     predict_loop M rand batch grouped_features item_tower_emb rest
       (prediction_dict(''similarity_'' @ input_name tower_cfg \<mapsto> v)))"

definition predict ::
  "('f, 'c) FusionDSSMV2 \<Rightarrow> (nat \<Rightarrow> randperm) \<Rightarrow> 'f Batch \<Rightarrow> error + (string \<rightharpoonup> tensor)" where
  "predict M rand batch =
     bind_e (eg_forward (embedding_group M) batch) (\<lambda>grouped_features.
     bind_e (getattr M ''item_tower'') (\<lambda>item.
     bind_e (lookup grouped_features (input_name (item_tower (model_config M)))) (\<lambda>feature.
     bind_e (forward item (rand 0) feature None False) (\<lambda>item_tower_emb.
     predict_loop M rand batch grouped_features item_tower_emb
       (enumerate 0 (user_tower (model_config M))) Map.empty))))"

subsection \<open>Construction\<close>

text \<open>What the constructors take from outside this file: the EmbeddingGroup, InputSENet
  and MLP constructors, the initial weights that nn.Linear draws, and the method
  \<open>sim\<close> of the base class. The first argument of \<open>new_senet\<close>, \<open>new_mlp\<close>,
  \<open>init_weight\<close> and \<open>init_bias\<close> is the number of the tower under construction
  (user tower \<open>i\<close> is \<open>i\<close>, the item tower comes last): every tower gets modules of
  its own.\<close>

record ('f, 'c) externals =
  new_embedding_group :: "BaseFeature list \<Rightarrow> FeatureGroupConfig list \<Rightarrow> 'f EmbeddingGroup"
  new_senet :: "nat \<Rightarrow> nat list \<Rightarrow> module"
  new_mlp :: "nat \<Rightarrow> nat \<Rightarrow> 'c \<Rightarrow> MLP"
  init_weight :: "nat \<Rightarrow> nat \<Rightarrow> nat \<Rightarrow> real"
  init_bias :: "nat \<Rightarrow> nat \<Rightarrow> real"
  base_sim :: "tensor \<Rightarrow> tensor \<Rightarrow> error + tensor"

text \<open>DSSMTower.\_\_init\_\_. The argument \<open>features\<close> of the source goes to the base
  class only and is left out; \<open>no\<close> is the number of the tower.\<close>

definition DSSMTower_init ::
  "('f, 'c) externals \<Rightarrow> nat \<Rightarrow> 'c Tower \<Rightarrow> int \<Rightarrow> Similarity \<Rightarrow> bool \<Rightarrow> FeatureGroupConfig
   \<Rightarrow> nat list \<Rightarrow> string list \<Rightarrow> int \<Rightarrow> error + DSSMTower" where
  "DSSMTower_init ext no tower_config out_dim simil with_senet feature_group dims
       perm_features n_flods =
     (let tower_feature_in = sum_list dims;
          the_mlp = new_mlp ext no tower_feature_in (mlp_config tower_config)
      in
      bind_e (sequence_e (map (index_of (feature_names feature_group)) perm_features))
        (\<lambda>idx.
      Inr \<lparr>tower_output_dim = out_dim,
           tower_similarity = simil,
           tower_use_senet = with_senet,
           feature_group_dims = dims,
           senet = (if with_senet then Some (new_senet ext no dims) else None),
           mlp = the_mlp,
           output_layer =
             (if out_dim > 0
              then Some \<lparr>in_features = mlp_output_dim the_mlp, out_features = nat out_dim,
                         weight = init_weight ext no, bias = init_bias ext no\<rparr>
              else None),
           perm_feats_index = idx,
           perm_nflods = n_flods\<rparr>))"

text \<open>The loop of FusionDSSMV2.\_\_init\_\_ that creates the user towers and stores each
  under the attribute \<open>f"{tower_cfg.input}_tower"\<close>.\<close>

fun init_user_towers ::
  "('f, 'c) externals \<Rightarrow> 'c ModelConfig \<Rightarrow> 'f EmbeddingGroup \<Rightarrow> (string \<rightharpoonup> PermFeat)
   \<Rightarrow> FeatureGroupConfig list \<Rightarrow> (nat \<times> 'c Tower) list \<Rightarrow> (string \<rightharpoonup> DSSMTower)
   \<Rightarrow> error + (string \<rightharpoonup> DSSMTower)" where
  "init_user_towers ext cfg eg perm user_groups [] a = Inr a"
| "init_user_towers ext cfg eg perm user_groups ((i, tower_cfg) # rest) a =
     (let perm_features = (case perm (input_name tower_cfg) of
                             Some pf \<Rightarrow> features pf | None \<Rightarrow> []);
          n_flods = (case perm (input_name tower_cfg) of
                       Some pf \<Rightarrow> nflods pf | None \<Rightarrow> 0)
      in
      bind_e (DSSMTower_init ext i tower_cfg (output_dim cfg) (similarity cfg)
                (use_senet cfg) (user_groups ! i) (group_dims eg (input_name tower_cfg))
                perm_features n_flods) (\<lambda>T.
      init_user_towers ext cfg eg perm user_groups rest
        (a(input_name tower_cfg @ ''_tower'' \<mapsto> T))))"

text \<open>FusionDSSMV2.\_\_init\_\_. The dictionary lookups that can raise KeyError are kept;
  the feature objects they collect go to the base class of the towers only. A new
  nn.Module is in training mode.\<close>

definition FusionDSSMV2_init ::
  "('f, 'c) externals \<Rightarrow> 'c ModelConfig \<Rightarrow> BaseFeature list \<Rightarrow> string list
   \<Rightarrow> error + ('f, 'c) FusionDSSMV2" where
  "FusionDSSMV2_init ext cfg feats label_names =
     (let name_to_feature_group = dict_of group_name (feature_groups cfg);
          eg = new_embedding_group ext feats (feature_groups cfg)
      in
      bind_e (sequence_e (map (\<lambda>tower. lookup name_to_feature_group (input_name tower))
                              (user_tower cfg))) (\<lambda>user_groups.
      bind_e (lookup name_to_feature_group (input_name (item_tower cfg))) (\<lambda>item_group.
      let name_to_feature = dict_of name feats in
      bind_e (sequence_e (map (\<lambda>g. sequence_e (map (lookup name_to_feature)
                                                     (feature_names g)))
                              user_groups)) (\<lambda>user_features.
      bind_e (sequence_e (map (\<lambda>g. sequence_e (map (lookup name_to_feature)
                                                     (concat (sequence_groups g))))
                              user_groups)) (\<lambda>user_sequence_features.
      bind_e (sequence_e (map (lookup name_to_feature) (feature_names item_group)))
        (\<lambda>item_features.
      let perm = dict_of tower_name (user_tower_perm_feat cfg) in
      bind_e (init_user_towers ext cfg eg perm user_groups
                (enumerate 0 (user_tower cfg)) Map.empty) (\<lambda>a.
      bind_e (DSSMTower_init ext (length (user_tower cfg)) (item_tower cfg)
                (output_dim cfg) (similarity cfg) (use_senet cfg) item_group
                (group_dims eg (input_name (item_tower cfg))) [] 0) (\<lambda>item.
      Inr \<lparr>model_config = cfg,
           embedding_group = eg,
           user_tower_perm_feat_dict = perm,
           attrs = a(''item_tower'' \<mapsto> item),
           training = True,
           sim = base_sim ext\<rparr>))))))))"

section \<open>Notions used in the statements\<close>

text \<open>The rows of fold \<open>k\<close> of \_perm\_feat, written out: piece \<open>idx\<close> of row \<open>i\<close>
  is piece \<open>idx\<close> of the input row \<open>i\<close>, or of the input row that fold \<open>k\<close>'s
  permutation puts at \<open>i\<close> when \<open>idx\<close> is a permuted feature.\<close>

definition fold_rows :: "randperm \<Rightarrow> tensor \<Rightarrow> nat list \<Rightarrow> nat list \<Rightarrow> nat \<Rightarrow> real list list" where
  "fold_rows rand feature dims P k =
     map (\<lambda>i. concat (map (\<lambda>idx. split_row dims
                 (rows feature ! (if idx \<in> set P then rand k (size0 feature) ! i else i)) ! idx)
               [0..<length dims]))
         [0..<size0 feature]"

text \<open>Rows \<open>k * B, ..., k * B + B - 1\<close> of a tensor, as a tensor.\<close>

definition fold_of :: "tensor \<Rightarrow> nat \<Rightarrow> nat \<Rightarrow> tensor" where
  "fold_of t B k = \<lparr>ncols = ncols t, rows = take B (drop (k * B) (rows t))\<rparr>"

text \<open>A module that returns as many rows as it is given.\<close>

definition keeps_rows :: "module \<Rightarrow> bool" where
  "keeps_rows f \<longleftrightarrow> (\<forall>x y. f x = Inr y \<longrightarrow> size0 y = size0 x)"

text \<open>A tower that carries the output dimension and similarity of a configuration, with
  an output layer of that many output features when the dimension is positive.\<close>

definition built_with :: "'c ModelConfig \<Rightarrow> DSSMTower \<Rightarrow> bool" where
  "built_with cfg T \<longleftrightarrow>
     tower_output_dim T = output_dim cfg \<and> tower_similarity T = similarity cfg
     \<and> (0 < output_dim cfg \<longrightarrow>
          (\<exists>L. output_layer T = Some L \<and> out_features L = nat (output_dim cfg)))"

section \<open>Concrete inputs\<close>

text \<open>A small tower and input on which the theorems below are instantiated: two
  features of widths 1 and 2, the second one permuted in two folds; the MLP is the
  identity and the output layer maps three columns to two.\<close>

definition ex_feature :: tensor where
  "ex_feature = \<lparr>ncols = 3, rows = [[1, 2, 3], [4, 5, 6]]\<rparr>"

definition ex_rand :: randperm where
  "ex_rand k n = rev [0..<n]"


text \<open>Outcomes of randperm that differ from call to call: the reversal at the even
  calls, the identity at the odd ones.\<close>

definition alt_rand :: randperm where
  "alt_rand k n = (if even k then rev [0..<n] else [0..<n])"

definition ex_mlp :: MLP where
  "ex_mlp = \<lparr>mlp_forward = Inr, mlp_output_dim = 3\<rparr>"

definition ex_linear :: linear where
  "ex_linear = \<lparr>in_features = 3, out_features = 2,
                 weight = (\<lambda>k j. if k = j then 1 else 0), bias = (\<lambda>k. 0)\<rparr>"

definition ex_tower :: DSSMTower where
  "ex_tower = \<lparr>tower_output_dim = 2, tower_similarity = OtherSimilarity 1,
                tower_use_senet = False, feature_group_dims = [1, 2], senet = None,
                mlp = ex_mlp, output_layer = Some ex_linear,
                perm_feats_index = [1], perm_nflods = 2\<rparr>"



text \<open>A model with one user tower \<open>u\<close> (the tower above, listed for permutation with
  two folds) and the item tower \<open>i\<close>, in training mode; \<open>sim\<close> is the matrix product
  of the user embeddings with the transposed item embeddings. The batch has three
  examples, the first and the third of channel 0, and one sampled negative item.\<close>

definition ex_item_tower :: DSSMTower where
  "ex_item_tower = \<lparr>tower_output_dim = 2, tower_similarity = OtherSimilarity 1,
                     tower_use_senet = False, feature_group_dims = [3], senet = None,
                     mlp = ex_mlp, output_layer = Some ex_linear,
                     perm_feats_index = [], perm_nflods = 0\<rparr>"

definition mm_sim :: "tensor \<Rightarrow> tensor \<Rightarrow> error + tensor" where
  "mm_sim U V = Inr \<lparr>ncols = size0 V,
                     rows = map (\<lambda>u. map (\<lambda>v. \<Sum>j\<leftarrow>[0..<ncols U]. u ! j * v ! j) (rows V))
                                (rows U)\<rparr>"

definition ex_config :: "unit ModelConfig" where
  "ex_config = \<lparr>feature_groups =
                   [\<lparr>group_name = ''u'', feature_names = [''a'', ''b''], sequence_groups = []\<rparr>,
                    \<lparr>group_name = ''i'', feature_names = [''c''], sequence_groups = []\<rparr>],
                 user_tower = [\<lparr>input_name = ''u'', mlp_config = ()\<rparr>],
                 item_tower = \<lparr>input_name = ''i'', mlp_config = ()\<rparr>,
                 user_tower_perm_feat = [\<lparr>tower_name = ''u'', features = [''b''], nflods = 2\<rparr>],
                 output_dim = 2, similarity = OtherSimilarity 1, use_senet = False,
                 temperature = 2\<rparr>"

definition ex_eg :: "(string \<rightharpoonup> tensor) EmbeddingGroup" where
  "ex_eg = \<lparr>eg_forward = (\<lambda>b. Inr (data b)),
             group_dims = (\<lambda>g. if g = ''u'' then [1, 2] else [3])\<rparr>"

definition ex_model :: "(string \<rightharpoonup> tensor, unit) FusionDSSMV2" where
  "ex_model = \<lparr>model_config = ex_config, embedding_group = ex_eg,
                user_tower_perm_feat_dict =
                  [''u'' \<mapsto> \<lparr>tower_name = ''u'', features = [''b''], nflods = 2\<rparr>],
                attrs = [''u_tower'' \<mapsto> ex_tower, ''item_tower'' \<mapsto> ex_item_tower],
                training = True, sim = mm_sim\<rparr>"

definition ex_user_feature :: tensor where
  "ex_user_feature = \<lparr>ncols = 3, rows = [[1, 2, 3], [7, 8, 9], [4, 5, 6]]\<rparr>"

definition ex_item_feature :: tensor where
  "ex_item_feature = \<lparr>ncols = 3, rows = [[1, 0, 0], [0, 1, 0], [0, 0, 1], [1, 1, 0]]\<rparr>"

definition ex_batch :: "(string \<rightharpoonup> tensor) Batch" where
  "ex_batch = \<lparr>labels = [''channel'' \<mapsto> [0, 1, 0]],
                data = [''u'' \<mapsto> ex_user_feature, ''i'' \<mapsto> ex_item_feature]\<rparr>"

definition ex_ext :: "(string \<rightharpoonup> tensor, unit) externals" where
  "ex_ext = \<lparr>new_embedding_group = (\<lambda>fs gs. ex_eg),
              new_senet = (\<lambda>no dims. Inr),
              new_mlp = (\<lambda>no n c. \<lparr>mlp_forward = Inr, mlp_output_dim = n\<rparr>),
              init_weight = (\<lambda>no k j. if k = j then 1 else 0),
              init_bias = (\<lambda>no k. 0),
              base_sim = mm_sim\<rparr>"

definition ex_features :: "BaseFeature list" where
  "ex_features = [\<lparr>name = ''a''\<rparr>, \<lparr>name = ''b''\<rparr>, \<lparr>name = ''c''\<rparr>]"

section \<open>Basic facts\<close>

lemma bind_e_Inl: "bind_e (Inl e) f = Inl e"
  by (simp add: bind_e_def)

lemma bind_e_Inr: "bind_e (Inr x) f = f x"
  by (simp add: bind_e_def)

lemma bind_e_eq_Inr: "bind_e m f = Inr y \<longleftrightarrow> (\<exists>x. m = Inr x \<and> f x = Inr y)"
  by (cases m) (simp_all add: bind_e_def)

lemma sequence_e_eq_Inr: "sequence_e ms = Inr xs \<longleftrightarrow> ms = map Inr xs"
proof (induction ms arbitrary: xs)
  case Nil
  show ?case by auto
next
  case (Cons m ms)
  show ?case
  proof (cases m)
    case (Inl e)
    then show ?thesis by (cases xs) auto
  next
    case (Inr x)
    then show ?thesis using Cons.IH
      by (cases xs; cases "sequence_e ms") auto
  qed
qed

lemma sequence_e_map_Inr: "sequence_e (map Inr xs) = Inr xs"
  by (simp add: sequence_e_eq_Inr)

lemma sequence_e_map_ok:
  assumes "\<And>x. x \<in> set xs \<Longrightarrow> f x = Inr (g x)"
  shows "sequence_e (map f xs) = Inr (map g xs)"
  using assms by (simp add: sequence_e_eq_Inr)

lemma length_split_row: "length (split_row ds r) = length ds"
  by (induction ds arbitrary: r) simp_all

lemma split_row_lengths:
  "sum_list ds \<le> length r \<Longrightarrow> map length (split_row ds r) = ds"
  by (induction ds arbitrary: r) simp_all

lemma split_row_concat:
  "map length ps = ds \<Longrightarrow> split_row ds (concat ps) = ps"
  by (induction ps arbitrary: ds) auto

lemma split_last_Inr:
  "split_last t ds = Inr bs \<Longrightarrow>
     sum_list ds = ncols t \<and> length bs = length ds \<and>
     (\<forall>k<length ds. ncols (bs ! k) = ds ! k \<and> size0 (bs ! k) = size0 t \<and>
        rows (bs ! k) = map (\<lambda>r. split_row ds r ! k) (rows t))"
  by (auto simp: split_last_def size0_def split: if_splits)

lemma index_select_Inr:
  "index_select t ix = Inr u \<Longrightarrow>
     ncols u = ncols t \<and> size0 u = length ix \<and> rows u = map (\<lambda>i. rows t ! i) ix \<and>
     (\<forall>i\<in>set ix. i < size0 t)"
  by (auto simp: index_select_def size0_def list_all_iff split: if_splits)

lemma index_select_ok:
  "\<forall>i\<in>set ix. i < size0 t \<Longrightarrow>
     index_select t ix = Inr \<lparr>ncols = ncols t, rows = map (\<lambda>i. rows t ! i) ix\<rparr>"
  by (simp add: index_select_def list_all_iff)

lemma enumerate_map_nth: "enumerate 0 xs = map (\<lambda>i. (i, xs ! i)) [0..<length xs]"
  by (rule nth_equalityI) (simp_all add: nth_enumerate_eq)

lemma randperm_okD:
  "randperm_ok rand \<Longrightarrow> length (rand k n) = n \<and> (\<forall>i\<in>set (rand k n). i < n)"
  by (auto simp: randperm_ok_def)

lemma cat_last_ok:
  assumes "ts \<noteq> []" and "\<forall>u\<in>set ts. size0 u = n"
  shows "cat_last ts = Inr \<lparr>ncols = sum_list (map ncols ts),
                            rows = map (\<lambda>i. concat (map (\<lambda>u. rows u ! i) ts)) [0..<n]\<rparr>"
proof (cases ts)
  case Nil
  with assms show ?thesis by simp
next
  case (Cons t us)
  with assms have "list_all (\<lambda>u. size0 u = size0 t) ts" and "size0 t = n"
    by (simp_all add: list_all_iff)
  then show ?thesis unfolding cat_last_def Cons by simp
qed

lemma cat0_ok:
  assumes "ts \<noteq> []" and "\<forall>u\<in>set ts. ncols u = c"
  shows "cat0 ts = Inr \<lparr>ncols = c, rows = concat (map rows ts)\<rparr>"
proof (cases ts)
  case Nil
  with assms show ?thesis by simp
next
  case (Cons t us)
  with assms have "list_all (\<lambda>u. ncols u = ncols t) ts" and "ncols t = c"
    by (simp_all add: list_all_iff)
  then show ?thesis unfolding cat0_def Cons by simp
qed

subsection \<open>The result of \_perm\_feat\<close>

lemma perm_fold_ok:
  assumes sp: "split_last feature dims = Inr blocks"
    and ne: "dims \<noteq> []"
    and rp: "randperm_ok rand"
  shows "perm_fold rand blocks P k =
           Inr \<lparr>ncols = sum_list dims, rows = fold_rows rand feature dims P k\<rparr>"
proof -
  let ?B = "size0 feature"
  let ?n = "length dims"
  let ?perm = "rand k ?B"
  from split_last_Inr[OF sp] have len: "length blocks = ?n"
    and blk: "\<And>j. j < ?n \<Longrightarrow> ncols (blocks ! j) = dims ! j \<and> size0 (blocks ! j) = ?B
                 \<and> rows (blocks ! j) = map (\<lambda>r. split_row dims r ! j) (rows feature)"
    by blast+
  from ne len obtain f0 fs where bl: "blocks = f0 # fs" by (cases blocks) auto
  have f0: "size0 f0 = ?B" using blk[of 0] ne bl by simp
  from randperm_okD[OF rp, of k ?B] have pl: "length ?perm = ?B"
    and pr: "\<And>i. i \<in> set ?perm \<Longrightarrow> i < ?B" by auto
  define g where "g = (\<lambda>j. if j \<in> set P
        then \<lparr>ncols = dims ! j, rows = map (\<lambda>i. rows (blocks ! j) ! i) ?perm\<rparr>
        else blocks ! j)"
  have "\<And>j. j < ?n \<Longrightarrow> (case (j, blocks ! j) of (idx, f) \<Rightarrow>
           if idx \<in> set P then index_select f ?perm else Inr f) = Inr (g j)"
  proof -
    fix j assume j: "j < ?n"
    have "\<forall>i\<in>set ?perm. i < size0 (blocks ! j)" using blk[OF j] pr by simp
    from index_select_ok[OF this] show "(case (j, blocks ! j) of (idx, f) \<Rightarrow>
           if idx \<in> set P then index_select f ?perm else Inr f) = Inr (g j)"
      using blk[OF j] by (simp add: g_def)
  qed
  then have pb: "perm_blocks blocks P ?perm = map Inr (map g [0..<?n])"
    unfolding perm_blocks_def enumerate_map_nth len by simp
  have sq: "sequence_e (perm_blocks blocks P ?perm) = Inr (map g [0..<?n])"
    unfolding pb by (rule sequence_e_map_Inr)
  have gs: "\<And>j. j < ?n \<Longrightarrow> size0 (g j) = ?B \<and> ncols (g j) = dims ! j"
    using blk pl by (simp add: g_def size0_def)
  have gne: "map g [0..<?n] \<noteq> []" using ne by simp
  have all: "\<forall>u\<in>set (map g [0..<?n]). size0 u = ?B" using gs by auto
  have nc: "sum_list (map ncols (map g [0..<?n])) = sum_list dims"
  proof -
    have "map ncols (map g [0..<?n]) = dims"
      by (rule nth_equalityI) (simp_all add: gs)
    then show ?thesis by simp
  qed
  have rws: "\<And>i j. i < ?B \<Longrightarrow> j < ?n \<Longrightarrow>
        rows (g j) ! i = split_row dims (rows feature ! (if j \<in> set P then ?perm ! i else i)) ! j"
  proof -
    fix i j assume i: "i < ?B" and j: "j < ?n"
    have pi: "?perm ! i < ?B" using pr pl i by simp
    show "rows (g j) ! i = split_row dims (rows feature ! (if j \<in> set P then ?perm ! i else i)) ! j"
      using blk[OF j] i pi pl by (simp add: g_def size0_def)
  qed
  have rw: "map (\<lambda>i. concat (map (\<lambda>u. rows u ! i) (map g [0..<?n]))) [0..<?B]
          = fold_rows rand feature dims P k"
    unfolding fold_rows_def map_map comp_def
    by (intro map_cong arg_cong[where f = concat] refl) (simp add: rws)
  have cl: "cat_last (map g [0..<?n]) =
      Inr \<lparr>ncols = sum_list dims, rows = fold_rows rand feature dims P k\<rparr>"
    by (simp only: cat_last_ok[OF gne all] nc rw)
  have "perm_fold rand blocks P k =
      bind_e (sequence_e (perm_blocks blocks P ?perm)) cat_last"
    by (simp add: perm_fold_def bl f0[unfolded bl])
  then show ?thesis by (simp only: sq bind_e_Inr cl)
qed

lemma length_fold_rows: "length (fold_rows rand feature dims P k) = size0 feature"
  by (simp add: fold_rows_def)

lemma perm_feat_ok:
  assumes sm: "sum_list dims = ncols feature"
    and ne: "dims \<noteq> []"
    and rp: "randperm_ok rand"
    and n1: "1 \<le> n"
  shows "perm_feat rand feature dims P n =
           Inr \<lparr>ncols = sum_list dims,
                rows = concat (map (fold_rows rand feature dims P) [0..<nat n])\<rparr>"
proof -
  obtain blocks where sp: "split_last feature dims = Inr blocks"
    using sm by (simp add: split_last_def)
  let ?F = "\<lambda>k. \<lparr>ncols = sum_list dims, rows = fold_rows rand feature dims P k\<rparr>"
  have sq: "sequence_e (map (perm_fold rand blocks P) [0..<nat n]) = Inr (map ?F [0..<nat n])"
    by (rule sequence_e_map_ok) (rule perm_fold_ok[OF sp ne rp])
  have nn: "map ?F [0..<nat n] \<noteq> []" using n1 by simp
  have al: "\<forall>u\<in>set (map ?F [0..<nat n]). ncols u = sum_list dims" by simp
  have "cat0 (map ?F [0..<nat n]) =
      Inr \<lparr>ncols = sum_list dims, rows = concat (map (fold_rows rand feature dims P) [0..<nat n])\<rparr>"
    by (simp only: cat0_ok[OF nn al]) (simp add: comp_def)
  then show ?thesis
    by (simp only: perm_feat_def sp bind_e_Inr sq)
qed

lemma cat0_not_empty_error: "ts \<noteq> [] \<Longrightarrow> cat0 ts \<noteq> Inl EmptyCat"
  by (cases ts) (simp_all add: cat0_def)

lemma cat_last_not_empty_error: "ts \<noteq> [] \<Longrightarrow> cat_last ts \<noteq> Inl EmptyCat"
  by (cases ts) (simp_all add: cat_last_def)

lemma sequence_e_Inl:
  "sequence_e ms = Inl e \<Longrightarrow> Inl e \<in> set ms"
proof (induction ms)
  case Nil then show ?case by simp
next
  case (Cons m ms)
  then show ?case by (cases m; cases "sequence_e ms") auto
qed

lemma sequence_e_length: "sequence_e ms = Inr xs \<Longrightarrow> length xs = length ms"
  by (simp add: sequence_e_eq_Inr)

lemma perm_blocks_no_empty_error: "Inl EmptyCat \<notin> set (perm_blocks bs P perm)"
  by (auto simp: perm_blocks_def index_select_def split: if_splits)

lemma perm_fold_not_empty_error: "perm_fold rand bs P k \<noteq> Inl EmptyCat"
proof (cases bs)
  case Nil
  then show ?thesis by (simp add: perm_fold_def)
next
  case (Cons f0 fs)
  let ?pb = "perm_blocks bs P (rand k (size0 f0))"
  show ?thesis
  proof (cases "sequence_e ?pb")
    case (Inl e)
    from sequence_e_Inl[OF Inl] perm_blocks_no_empty_error have "e \<noteq> EmptyCat" by metis
    with Inl Cons show ?thesis by (simp add: perm_fold_def bind_e_def)
  next
    case (Inr tmp)
    from sequence_e_length[OF Inr] Cons have "tmp \<noteq> []"
      by (auto simp: perm_blocks_def)
    from cat_last_not_empty_error[OF this] Inr Cons show ?thesis
      by (simp add: perm_fold_def bind_e_def)
  qed
qed

lemma perm_feat_not_empty_error:
  assumes "1 \<le> n"
  shows "perm_feat rand feature dims P n \<noteq> Inl EmptyCat"
proof (cases "split_last feature dims")
  case (Inl e)
  then have "e = SplitSizes" by (auto simp: split_last_def split: if_splits)
  with Inl show ?thesis by (simp add: perm_feat_def bind_e_def)
next
  case (Inr blocks)
  let ?ms = "map (perm_fold rand blocks P) [0..<nat n]"
  show ?thesis
  proof (cases "sequence_e ?ms")
    case (Inl e)
    from sequence_e_Inl[OF Inl] obtain k where "perm_fold rand blocks P k = Inl e"
      by auto
    with perm_fold_not_empty_error[of rand blocks P k] have "e \<noteq> EmptyCat" by auto
    with Inl Inr show ?thesis by (simp add: perm_feat_def bind_e_def)
  next
    case sq: (Inr folds)
    from sequence_e_length[OF sq] assms have "folds \<noteq> []" by auto
    from cat0_not_empty_error[OF this] Inr sq show ?thesis
      by (simp add: perm_feat_def bind_e_def)
  qed
qed

lemma perm_feat_no_folds:
  assumes "n \<le> 0"
  shows "perm_feat rand feature dims P n =
           (if sum_list dims = ncols feature then Inl EmptyCat else Inl SplitSizes)"
  using assms by (simp add: perm_feat_def split_last_def bind_e_def cat0_def)

lemma perm_feat_InrD:
  assumes ok: "perm_feat rand feature dims P n = Inr out"
  shows "sum_list dims = ncols feature \<and> dims \<noteq> [] \<and> 1 \<le> n"
proof -
  have n1: "1 \<le> n"
  proof (rule ccontr)
    assume "\<not> 1 \<le> n"
    then have "n \<le> 0" by simp
    from perm_feat_no_folds[OF this] ok show False by (simp split: if_splits)
  qed
  from ok obtain blocks folds where sp: "split_last feature dims = Inr blocks"
    and sq: "sequence_e (map (perm_fold rand blocks P) [0..<nat n]) = Inr folds"
    by (auto simp: perm_feat_def bind_e_eq_Inr)
  from sp have sm: "sum_list dims = ncols feature" and len: "length blocks = length dims"
    by (auto simp: split_last_def split: if_splits)
  from sq have eq: "map (perm_fold rand blocks P) [0..<nat n] = map Inr folds"
    by (simp add: sequence_e_eq_Inr)
  from arg_cong[OF eq, of length] have lf: "length folds = nat n" by simp
  from arg_cong[OF eq, of "\<lambda>l. l ! 0"] n1 lf
  have "perm_fold rand blocks P 0 = Inr (folds ! 0)" by simp
  then have "blocks \<noteq> []" by (auto simp: perm_fold_def)
  with len sm n1 show ?thesis by auto
qed

lemma length_concat_folds:
  "length (concat (map (fold_rows rand feature dims P) [0..<m])) = m * size0 feature"
  by (simp add: length_concat comp_def length_fold_rows sum_list_triv)

lemma perm_feat_Inr_eq:
  assumes rp: "randperm_ok rand" and ok: "perm_feat rand feature dims P n = Inr out"
  shows "out = \<lparr>ncols = sum_list dims,
               rows = concat (map (fold_rows rand feature dims P) [0..<nat n])\<rparr>"
proof -
  from perm_feat_InrD[OF ok] have "sum_list dims = ncols feature" "dims \<noteq> []" "1 \<le> n"
    by auto
  from perm_feat_ok[OF this(1) this(2) rp this(3), of P] ok show ?thesis by simp
qed

lemma perm_feat_Inr_size:
  assumes rp: "randperm_ok rand" and ok: "perm_feat rand feature dims P n = Inr out"
  shows "size0 out = nat n * size0 feature" and "ncols out = sum_list dims"
  unfolding perm_feat_Inr_eq[OF rp ok] by (simp_all add: size0_def length_concat_folds)

subsection \<open>The stages of forward\<close>

lemma forward_InrD:
  assumes "forward T rand F ix p = Inr res"
  shows "\<exists>X Y Z H Out.
           (case ix of None \<Rightarrow> Inr F | Some i \<Rightarrow> index_select F i) = Inr X
         \<and> (if p \<and> length (perm_feats_index T) > 0
             then perm_feat rand X (feature_group_dims T) (perm_feats_index T) (perm_nflods T)
             else Inr X) = Inr Y
         \<and> (if tower_use_senet T
             then (case senet T of None \<Rightarrow> Inl (AttributeError ''senet'') | Some s \<Rightarrow> s Y)
             else Inr Y) = Inr Z
         \<and> mlp_forward (mlp T) Z = Inr H
         \<and> (if tower_output_dim T > 0
             then (case output_layer T of None \<Rightarrow> Inl (AttributeError ''output'')
                   | Some L \<Rightarrow> linear_forward L H)
             else Inr H) = Inr Out
         \<and> (if tower_similarity T = COSINE then F_normalize Out else Out) = res"
  using assms unfolding forward_def bind_e_eq_Inr sum.inject by blast

lemma size0_normalize: "size0 (F_normalize t) = size0 t"
  by (simp add: F_normalize_def size0_def)

lemma ncols_normalize: "ncols (F_normalize t) = ncols t"
  by (simp add: F_normalize_def)

lemma linear_forward_Inr:
  "linear_forward L x = Inr y \<Longrightarrow> size0 y = size0 x \<and> ncols y = out_features L"
  by (auto simp: linear_forward_def size0_def split: if_splits)

lemma forward_permuted_rows:
  assumes rp: "randperm_ok rand"
    and ok: "forward T rand F ix True = Inr res"
    and pf: "perm_feats_index T \<noteq> []"
    and km: "keeps_rows (mlp_forward (mlp T))"
    and ks: "\<And>s. senet T = Some s \<Longrightarrow> keeps_rows s"
  shows "size0 res = nat (perm_nflods T) * (case ix of None \<Rightarrow> size0 F | Some i \<Rightarrow> length i)"
proof -
  from forward_InrD[OF ok] pf obtain X Y Z H Out where
    x: "(case ix of None \<Rightarrow> Inr F | Some i \<Rightarrow> index_select F i) = Inr X"
    and y: "perm_feat rand X (feature_group_dims T) (perm_feats_index T) (perm_nflods T) = Inr Y"
    and z: "(if tower_use_senet T
             then (case senet T of None \<Rightarrow> Inl (AttributeError ''senet'') | Some s \<Rightarrow> s Y)
             else Inr Y) = Inr Z"
    and h: "mlp_forward (mlp T) Z = Inr H"
    and out: "(if tower_output_dim T > 0
             then (case output_layer T of None \<Rightarrow> Inl (AttributeError ''output'')
                   | Some L \<Rightarrow> linear_forward L H)
             else Inr H) = Inr Out"
    and res: "(if tower_similarity T = COSINE then F_normalize Out else Out) = res"
    by auto
  have sx: "size0 X = (case ix of None \<Rightarrow> size0 F | Some i \<Rightarrow> length i)"
    using x by (cases ix) (auto dest: index_select_Inr)
  have sy: "size0 Y = nat (perm_nflods T) * size0 X"
    by (rule perm_feat_Inr_size(1)[OF rp y])
  have sz: "size0 Z = size0 Y"
    using z ks by (auto simp: keeps_rows_def split: if_splits option.splits)
  have sh: "size0 H = size0 Z" using h km by (auto simp: keeps_rows_def)
  have so: "size0 Out = size0 H"
    using out by (auto split: if_splits option.splits dest: linear_forward_Inr)
  have "size0 res = size0 Out" using res by (auto simp: size0_normalize)
  with so sh sz sy sx show ?thesis by simp
qed

lemma ex_rand_ok: "randperm_ok ex_rand"
  by (auto simp: randperm_ok_def ex_rand_def)

lemma ex_perm_feat: "perm_feat ex_rand ex_feature [1,2] [1] 2 = Inr \<lparr>ncols = 3, rows = [[1, 5, 6], [4, 2, 3], [1, 5, 6], [4, 2, 3]]\<rparr>"
  by (simp add: perm_feat_def split_last_def ex_feature_def bind_e_def perm_fold_def perm_blocks_def
      index_select_def cat_last_def cat0_def size0_def ex_rand_def enumerate_eq_zip upt_conv_Cons)

lemma forward_stages:
  assumes "(case ix of None \<Rightarrow> Inr F | Some i \<Rightarrow> index_select F i) = Inr X"
    and "(if p \<and> length (perm_feats_index T) > 0
             then perm_feat rand X (feature_group_dims T) (perm_feats_index T) (perm_nflods T)
             else Inr X) = Inr Y"
    and "(if tower_use_senet T
             then (case senet T of None \<Rightarrow> Inl (AttributeError ''senet'') | Some s \<Rightarrow> s Y)
             else Inr Y) = Inr Z"
    and "mlp_forward (mlp T) Z = Inr H"
    and "(if tower_output_dim T > 0
             then (case output_layer T of None \<Rightarrow> Inl (AttributeError ''output'')
                   | Some L \<Rightarrow> linear_forward L H)
             else Inr H) = Inr Out"
  shows "forward T rand F ix p = Inr (if tower_similarity T = COSINE then F_normalize Out else Out)"
  unfolding forward_def bind_e_eq_Inr sum.inject using assms by blast

lemma ex_linear_apply:
  "linear_forward ex_linear \<lparr>ncols = 3, rows = [[1, 5, 6], [4, 2, 3], [1, 5, 6], [4, 2, 3]]\<rparr>
     = Inr \<lparr>ncols = 2, rows = [[1, 5], [4, 2], [1, 5], [4, 2]]\<rparr>"
  by (simp add: linear_forward_def ex_linear_def upt_conv_Cons)

lemma ex_forward_permuted: "forward ex_tower ex_rand ex_feature None True = Inr \<lparr>ncols = 2, rows = [[1, 5], [4, 2], [1, 5], [4, 2]]\<rparr>"
proof -
  have a: "tower_similarity ex_tower \<noteq> COSINE" by (simp add: ex_tower_def)
  have "forward ex_tower ex_rand ex_feature None True =
     Inr (if tower_similarity ex_tower = COSINE
          then F_normalize \<lparr>ncols = 2, rows = [[1, 5], [4, 2], [1, 5], [4, 2]]\<rparr>
          else \<lparr>ncols = 2, rows = [[1, 5], [4, 2], [1, 5], [4, 2]]\<rparr>)"
  proof (rule forward_stages)
    show "(case None of None \<Rightarrow> Inr ex_feature | Some i \<Rightarrow> index_select ex_feature i) = Inr ex_feature"
      by simp
    show "(if True \<and> length (perm_feats_index ex_tower) > 0
             then perm_feat ex_rand ex_feature (feature_group_dims ex_tower) (perm_feats_index ex_tower) (perm_nflods ex_tower)
             else Inr ex_feature) = Inr \<lparr>ncols = 3, rows = [[1, 5, 6], [4, 2, 3], [1, 5, 6], [4, 2, 3]]\<rparr>"
      using ex_perm_feat by (simp add: ex_tower_def)
    show "(if tower_use_senet ex_tower
             then (case senet ex_tower of None \<Rightarrow> Inl (AttributeError ''senet'') | Some s \<Rightarrow> s \<lparr>ncols = 3, rows = [[1, 5, 6], [4, 2, 3], [1, 5, 6], [4, 2, 3]]\<rparr>)
             else Inr \<lparr>ncols = 3, rows = [[1, 5, 6], [4, 2, 3], [1, 5, 6], [4, 2, 3]]\<rparr>) = Inr \<lparr>ncols = 3, rows = [[1, 5, 6], [4, 2, 3], [1, 5, 6], [4, 2, 3]]\<rparr>"
      by (simp add: ex_tower_def)
    show "mlp_forward (mlp ex_tower) \<lparr>ncols = 3, rows = [[1, 5, 6], [4, 2, 3], [1, 5, 6], [4, 2, 3]]\<rparr> = Inr \<lparr>ncols = 3, rows = [[1, 5, 6], [4, 2, 3], [1, 5, 6], [4, 2, 3]]\<rparr>"
      by (simp add: ex_tower_def ex_mlp_def)
    show "(if tower_output_dim ex_tower > 0
             then (case output_layer ex_tower of None \<Rightarrow> Inl (AttributeError ''output'')
                   | Some L \<Rightarrow> linear_forward L \<lparr>ncols = 3, rows = [[1, 5, 6], [4, 2, 3], [1, 5, 6], [4, 2, 3]]\<rparr>)
             else Inr \<lparr>ncols = 3, rows = [[1, 5, 6], [4, 2, 3], [1, 5, 6], [4, 2, 3]]\<rparr>) = Inr \<lparr>ncols = 2, rows = [[1, 5], [4, 2], [1, 5], [4, 2]]\<rparr>"
      using ex_linear_apply by (simp add: ex_tower_def)
  qed
  with a show ?thesis by simp
qed

lemma ex_forward_plain:
  "forward ex_tower r ex_feature None False = Inr \<lparr>ncols = 2, rows = [[1, 2], [4, 5]]\<rparr>"
proof -
  have a: "tower_similarity ex_tower \<noteq> COSINE" by (simp add: ex_tower_def)
  have "forward ex_tower r ex_feature None False =
     Inr (if tower_similarity ex_tower = COSINE
          then F_normalize \<lparr>ncols = 2, rows = [[1, 2], [4, 5]]\<rparr>
          else \<lparr>ncols = 2, rows = [[1, 2], [4, 5]]\<rparr>)"
  proof (rule forward_stages)
    show "(case None of None \<Rightarrow> Inr ex_feature | Some i \<Rightarrow> index_select ex_feature i) = Inr ex_feature"
      by simp
    show "(if False \<and> length (perm_feats_index ex_tower) > 0
             then perm_feat r ex_feature (feature_group_dims ex_tower) (perm_feats_index ex_tower) (perm_nflods ex_tower)
             else Inr ex_feature) = Inr ex_feature"
      by simp
    show "(if tower_use_senet ex_tower
             then (case senet ex_tower of None \<Rightarrow> Inl (AttributeError ''senet'') | Some s \<Rightarrow> s ex_feature)
             else Inr ex_feature) = Inr ex_feature"
      by (simp add: ex_tower_def)
    show "mlp_forward (mlp ex_tower) ex_feature = Inr ex_feature"
      by (simp add: ex_tower_def ex_mlp_def)
    show "(if tower_output_dim ex_tower > 0
             then (case output_layer ex_tower of None \<Rightarrow> Inl (AttributeError ''output'')
                   | Some L \<Rightarrow> linear_forward L ex_feature)
             else Inr ex_feature) = Inr \<lparr>ncols = 2, rows = [[1, 2], [4, 5]]\<rparr>"
      by (simp add: ex_tower_def linear_forward_def ex_linear_def ex_feature_def upt_conv_Cons)
  qed
  with a show ?thesis by simp
qed

lemma forward_no_folds:
  assumes pf: "perm_feats_index T \<noteq> []" and n0: "perm_nflods T \<le> 0"
  shows "\<exists>e. forward T rand F ix True = Inl e"
proof (cases "forward T rand F ix True")
  case (Inl e)
  then show ?thesis by blast
next
  case (Inr res)
  from forward_InrD[OF Inr] pf obtain X Y where
    "perm_feat rand X (feature_group_dims T) (perm_feats_index T) (perm_nflods T) = Inr Y"
    by auto
  from perm_feat_InrD[OF this] n0 show ?thesis by simp
qed

lemma forward_no_folds_error:
  assumes pf: "perm_feats_index T \<noteq> []" and n0: "perm_nflods T \<le> 0"
    and sm: "sum_list (feature_group_dims T) = ncols F"
  shows "forward T rand F None True = Inl EmptyCat"
  using pf sm perm_feat_no_folds[OF n0, of rand F "feature_group_dims T" "perm_feats_index T"]
  by (simp add: forward_def bind_e_def)

text \<open>C9. A permuted forward call of a tower with permuted features needs
  \<open>perm_nflods \<ge> 1\<close>. With \<open>perm_nflods \<le> 0\<close> the call raises; when the input has
  the width \<open>sum(feat_dims)\<close>, the error is that of torch.cat on the empty list of
  folds. With \<open>perm_nflods \<ge> 1\<close> \_perm\_feat never raises that error, and on an input
  of the right width with a non-empty \<open>feat_dims\<close> it returns.\<close>

theorem perm_nflods_precondition:
  "(perm_feats_index T \<noteq> [] \<and> perm_nflods T \<le> 0 \<longrightarrow>
      (\<exists>e. forward T rand F ix True = Inl e))
   \<and> (perm_feats_index T \<noteq> [] \<and> perm_nflods T \<le> 0
        \<and> sum_list (feature_group_dims T) = ncols F \<longrightarrow>
      forward T rand F None True = Inl EmptyCat)
   \<and> (n \<le> 0 \<and> sum_list dims = ncols X \<longrightarrow> perm_feat rand X dims P n = Inl EmptyCat)
   \<and> (1 \<le> n \<longrightarrow> perm_feat rand X dims P n \<noteq> Inl EmptyCat)
   \<and> (1 \<le> n \<and> sum_list dims = ncols X \<and> dims \<noteq> [] \<and> randperm_ok rand \<longrightarrow>
      (\<exists>out. perm_feat rand X dims P n = Inr out))"
proof (intro conjI impI)
  assume "perm_feats_index T \<noteq> [] \<and> perm_nflods T \<le> 0"
  then show "\<exists>e. forward T rand F ix True = Inl e"
    using forward_no_folds by blast
next
  assume "perm_feats_index T \<noteq> [] \<and> perm_nflods T \<le> 0
        \<and> sum_list (feature_group_dims T) = ncols F"
  then show "forward T rand F None True = Inl EmptyCat"
    using forward_no_folds_error by blast
next
  assume "n \<le> 0 \<and> sum_list dims = ncols X"
  then show "perm_feat rand X dims P n = Inl EmptyCat"
    using perm_feat_no_folds[of n rand X dims P] by simp
next
  assume "1 \<le> n"
  then show "perm_feat rand X dims P n \<noteq> Inl EmptyCat"
    by (rule perm_feat_not_empty_error)
next
  assume "1 \<le> n \<and> sum_list dims = ncols X \<and> dims \<noteq> [] \<and> randperm_ok rand"
  then show "\<exists>out. perm_feat rand X dims P n = Inr out"
    using perm_feat_ok[of dims X rand n P] by blast
qed

theorem perm_nflods_precondition_witness:
  "forward (ex_tower\<lparr>perm_nflods := 0\<rparr>) ex_rand ex_feature None True = Inl EmptyCat
   \<and> perm_feat ex_rand ex_feature [1, 2] [1] 0 = Inl EmptyCat
   \<and> perm_feat ex_rand ex_feature [1, 2] [1] 2 \<noteq> Inl EmptyCat
   \<and> (\<exists>out. perm_feat ex_rand ex_feature [1, 2] [1] 2 = Inr out)"
proof -
  have a: "perm_feats_index (ex_tower\<lparr>perm_nflods := 0\<rparr>) \<noteq> []
      \<and> perm_nflods (ex_tower\<lparr>perm_nflods := 0\<rparr>) \<le> 0
      \<and> sum_list (feature_group_dims (ex_tower\<lparr>perm_nflods := 0\<rparr>)) = ncols ex_feature"
    by (simp add: ex_tower_def ex_feature_def)
  have b: "(0::int) \<le> 0 \<and> sum_list [1, 2] = ncols ex_feature"
    by (simp add: ex_feature_def)
  have c: "(1::int) \<le> 2 \<and> sum_list [1, 2] = ncols ex_feature \<and> [1, 2] \<noteq> ([]::nat list)
      \<and> randperm_ok ex_rand"
    using ex_rand_ok by (simp add: ex_feature_def)
  note w1 = perm_nflods_precondition[of "ex_tower\<lparr>perm_nflods := 0\<rparr>" ex_rand ex_feature None
      0 "[1, 2]" ex_feature "[1]"]
  note w2 = perm_nflods_precondition[of ex_tower ex_rand ex_feature None
      2 "[1, 2]" ex_feature "[1]"]
  from w1 a b have "forward (ex_tower\<lparr>perm_nflods := 0\<rparr>) ex_rand ex_feature None True = Inl EmptyCat"
    and "perm_feat ex_rand ex_feature [1, 2] [1] 0 = Inl EmptyCat" by blast+
  moreover from w2 c have "perm_feat ex_rand ex_feature [1, 2] [1] 2 \<noteq> Inl EmptyCat"
    and "\<exists>out. perm_feat ex_rand ex_feature [1, 2] [1] 2 = Inr out" by blast+
  ultimately show ?thesis by blast
qed



subsection \<open>The folds of \_perm\_feat, block by block\<close>

lemma take_drop_concat_chunk:
  assumes "\<forall>x\<in>set xss. length x = B" and "k < length xss"
  shows "take B (drop (k * B) (concat xss)) = xss ! k"
  using assms
proof (induction xss arbitrary: k)
  case Nil
  then show ?case by simp
next
  case (Cons x xss)
  show ?case
  proof (cases k)
    case 0
    with Cons.prems show ?thesis by simp
  next
    case (Suc j)
    with Cons.prems have "take B (drop (j * B) (concat xss)) = xss ! j"
      by (intro Cons.IH) auto
    with Suc Cons.prems show ?thesis by (simp add: add.commute)
  qed
qed

lemma rect_row_length:
  "rect t \<Longrightarrow> i < size0 t \<Longrightarrow> length (rows t ! i) = ncols t"
  by (simp add: rect_def size0_def list_all_length)

lemma split_row_piece_length:
  assumes "sum_list ds \<le> length r" and "j < length ds"
  shows "length (split_row ds r ! j) = ds ! j"
proof -
  have "map length (split_row ds r) ! j = ds ! j"
    using split_row_lengths[OF assms(1)] by simp
  then show ?thesis using assms(2) by (simp add: length_split_row)
qed

lemma split_row_fold_row:
  assumes rc: "rect feature" and sm: "sum_list dims = ncols feature"
    and sg: "\<And>j. j < length dims \<Longrightarrow> s j < size0 feature"
    and j: "j < length dims"
  shows "split_row dims (concat (map (\<lambda>idx. split_row dims (rows feature ! s idx) ! idx)
                                    [0..<length dims])) ! j
         = split_row dims (rows feature ! s j) ! j"
proof -
  let ?ps = "map (\<lambda>idx. split_row dims (rows feature ! s idx) ! idx) [0..<length dims]"
  have "map length ?ps = dims"
  proof (rule nth_equalityI)
    show "length (map length ?ps) = length dims" by simp
  next
    fix i assume "i < length (map length ?ps)"
    then have i: "i < length dims" by simp
    have "sum_list dims \<le> length (rows feature ! s i)"
      using rect_row_length[OF rc sg[OF i]] sm by simp
    from split_row_piece_length[OF this i] i show "map length ?ps ! i = dims ! i" by simp
  qed
  from split_row_concat[OF this] j show ?thesis by simp
qed

text \<open>C5. In every fold of the result of \_perm\_feat, split again by \<open>feat_dims\<close>, the
  blocks whose position is not in \<open>perm_feats_index\<close> are the blocks of the input,
  unchanged, and every block whose position is in \<open>perm_feats_index\<close> is the input
  block indexed by the one permutation that randperm returned for this fold.\<close>

theorem perm_feat_frame:
  assumes rc: "rect feature"
    and rp: "randperm_ok rand"
    and ok: "perm_feat rand feature feat_dims P n = Inr out"
    and k: "k < nat n"
  shows "\<exists>blocks bs.
           split_last feature feat_dims = Inr blocks
         \<and> split_last (fold_of out (size0 feature) k) feat_dims = Inr bs
         \<and> length blocks = length feat_dims \<and> length bs = length feat_dims
         \<and> (\<forall>idx<length feat_dims.
               (idx \<notin> set P \<longrightarrow> bs ! idx = blocks ! idx)
             \<and> (idx \<in> set P \<longrightarrow>
                  index_select (blocks ! idx) (rand k (size0 feature)) = Inr (bs ! idx)))"
proof -
  let ?B = "size0 feature"
  let ?m = "length feat_dims"
  let ?perm = "rand k ?B"
  from perm_feat_InrD[OF ok] have sm: "sum_list feat_dims = ncols feature" by simp
  then obtain blocks where sp: "split_last feature feat_dims = Inr blocks"
    by (simp add: split_last_def)
  from split_last_Inr[OF sp] have len: "length blocks = ?m"
    and blk: "\<And>j. j < ?m \<Longrightarrow> ncols (blocks ! j) = feat_dims ! j \<and> size0 (blocks ! j) = ?B
                 \<and> rows (blocks ! j) = map (\<lambda>r. split_row feat_dims r ! j) (rows feature)"
    by blast+
  from randperm_okD[OF rp, of k ?B] have pl: "length ?perm = ?B"
    and pr: "\<And>i. i \<in> set ?perm \<Longrightarrow> i < ?B" by auto
  have out: "out = \<lparr>ncols = sum_list feat_dims,
               rows = concat (map (fold_rows rand feature feat_dims P) [0..<nat n])\<rparr>"
    by (rule perm_feat_Inr_eq[OF rp ok])
  have "take ?B (drop (k * ?B) (concat (map (fold_rows rand feature feat_dims P) [0..<nat n])))
        = map (fold_rows rand feature feat_dims P) [0..<nat n] ! k"
    by (rule take_drop_concat_chunk) (use k in \<open>auto simp: length_fold_rows\<close>)
  with k have fo: "fold_of out ?B k =
      \<lparr>ncols = sum_list feat_dims, rows = fold_rows rand feature feat_dims P k\<rparr>"
    by (simp add: fold_of_def out)
  define bs where "bs = map (\<lambda>j. \<lparr>ncols = feat_dims ! j,
        rows = map (\<lambda>r. split_row feat_dims r ! j) (fold_rows rand feature feat_dims P k)\<rparr>)
        [0..<?m]"
  have sb: "split_last (fold_of out ?B k) feat_dims = Inr bs"
    by (simp add: fo split_last_def bs_def)
  have lb: "length bs = ?m" by (simp add: bs_def)
  have piece: "\<And>i j. i < ?B \<Longrightarrow> j < ?m \<Longrightarrow>
      split_row feat_dims (fold_rows rand feature feat_dims P k ! i) ! j
      = split_row feat_dims (rows feature ! (if j \<in> set P then ?perm ! i else i)) ! j"
  proof -
    fix i j assume i: "i < ?B" and j: "j < ?m"
    have pi: "?perm ! i < ?B" using pr pl i by simp
    have "fold_rows rand feature feat_dims P k ! i
        = concat (map (\<lambda>idx. split_row feat_dims
                 (rows feature ! (if idx \<in> set P then ?perm ! i else i)) ! idx) [0..<?m])"
      using i by (simp add: fold_rows_def cong: if_cong)
    moreover have "split_row feat_dims (concat (map (\<lambda>idx. split_row feat_dims
                 (rows feature ! (if idx \<in> set P then ?perm ! i else i)) ! idx) [0..<?m])) ! j
         = split_row feat_dims (rows feature ! (if j \<in> set P then ?perm ! i else i)) ! j"
      by (rule split_row_fold_row[OF rc sm _ j]) (use i pi in simp)
    ultimately show "split_row feat_dims (fold_rows rand feature feat_dims P k ! i) ! j
      = split_row feat_dims (rows feature ! (if j \<in> set P then ?perm ! i else i)) ! j"
      by simp
  qed
  have rows_bs: "\<And>j. j < ?m \<Longrightarrow>
      rows (bs ! j) = map (\<lambda>i. rows (blocks ! j) ! (if j \<in> set P then ?perm ! i else i)) [0..<?B]"
  proof -
    fix j assume j: "j < ?m"
    show "rows (bs ! j) = map (\<lambda>i. rows (blocks ! j) ! (if j \<in> set P then ?perm ! i else i)) [0..<?B]"
    proof (rule nth_equalityI)
      show "length (rows (bs ! j)) = length (map (\<lambda>i. rows (blocks ! j) ! (if j \<in> set P then ?perm ! i else i)) [0..<?B])"
        using j by (simp add: bs_def length_fold_rows)
    next
      fix i assume "i < length (rows (bs ! j))"
      then have i: "i < ?B" using j by (simp add: bs_def length_fold_rows)
      have pi: "?perm ! i < ?B" using pr pl i by simp
      have "rows (bs ! j) ! i = split_row feat_dims (fold_rows rand feature feat_dims P k ! i) ! j"
        using i j by (simp add: bs_def length_fold_rows)
      also have "\<dots> = split_row feat_dims (rows feature ! (if j \<in> set P then ?perm ! i else i)) ! j"
        by (rule piece[OF i j])
      also have "\<dots> = rows (blocks ! j) ! (if j \<in> set P then ?perm ! i else i)"
        using blk[OF j] i pi by (simp add: size0_def)
      finally show "rows (bs ! j) ! i
          = map (\<lambda>i. rows (blocks ! j) ! (if j \<in> set P then ?perm ! i else i)) [0..<?B] ! i"
        using i by simp
    qed
  qed
  have frame: "\<forall>idx<?m. (idx \<notin> set P \<longrightarrow> bs ! idx = blocks ! idx)
             \<and> (idx \<in> set P \<longrightarrow> index_select (blocks ! idx) ?perm = Inr (bs ! idx))"
  proof (intro allI impI conjI)
    fix idx assume j: "idx < ?m" and np: "idx \<notin> set P"
    have "rows (bs ! idx) = map (\<lambda>i. rows (blocks ! idx) ! i) [0..<?B]"
      using rows_bs[OF j] np by simp
    also have "\<dots> = rows (blocks ! idx)"
    proof -
      have "length (rows (blocks ! idx)) = ?B" using blk[OF j] by (simp add: size0_def)
      then show ?thesis using map_nth[of "rows (blocks ! idx)"] by simp
    qed
    finally have "rows (bs ! idx) = rows (blocks ! idx)" .
    moreover have "ncols (bs ! idx) = ncols (blocks ! idx)"
      using blk[OF j] j by (simp add: bs_def)
    ultimately show "bs ! idx = blocks ! idx" by simp
  next
    fix idx assume j: "idx < ?m" and ip: "idx \<in> set P"
    have "\<forall>i\<in>set ?perm. i < size0 (blocks ! idx)" using pr blk[OF j] by simp
    from index_select_ok[OF this]
    have "index_select (blocks ! idx) ?perm
        = Inr \<lparr>ncols = ncols (blocks ! idx), rows = map ((!) (rows (blocks ! idx))) ?perm\<rparr>" .
    moreover have "rows (bs ! idx) = map (\<lambda>i. rows (blocks ! idx) ! (?perm ! i)) [0..<?B]"
      using rows_bs[OF j] ip by simp
    moreover have "map (\<lambda>i. rows (blocks ! idx) ! (?perm ! i)) [0..<?B]
        = map ((!) (rows (blocks ! idx))) ?perm"
      by (rule nth_equalityI) (simp_all add: pl)
    moreover have "ncols (bs ! idx) = ncols (blocks ! idx)"
      using blk[OF j] j by (simp add: bs_def)
    ultimately show "index_select (blocks ! idx) ?perm = Inr (bs ! idx)" by simp
  qed
  from sp sb len lb frame show ?thesis by blast
qed

theorem perm_feat_frame_witness:
  "\<exists>blocks bs.
      split_last ex_feature [1, 2] = Inr blocks
    \<and> split_last (fold_of \<lparr>ncols = 3, rows = [[1, 5, 6], [4, 2, 3], [1, 5, 6], [4, 2, 3]]\<rparr>
                    (size0 ex_feature) 1) [1, 2] = Inr bs
    \<and> bs ! 0 = blocks ! 0
    \<and> index_select (blocks ! 1) (ex_rand 1 (size0 ex_feature)) = Inr (bs ! 1)"
proof -
  have rc: "rect ex_feature" by (simp add: rect_def ex_feature_def)
  have k: "(1::nat) < nat 2" by simp
  from perm_feat_frame[OF rc ex_rand_ok ex_perm_feat k]
  obtain blocks bs where
    a: "split_last ex_feature [1, 2] = Inr blocks"
    and b: "split_last (fold_of \<lparr>ncols = 3, rows = [[1, 5, 6], [4, 2, 3], [1, 5, 6], [4, 2, 3]]\<rparr>
                    (size0 ex_feature) 1) [1, 2] = Inr bs"
    and f: "\<forall>idx<length [1::nat, 2].
               (idx \<notin> set [1::nat] \<longrightarrow> bs ! idx = blocks ! idx)
             \<and> (idx \<in> set [1::nat] \<longrightarrow>
                  index_select (blocks ! idx) (ex_rand 1 (size0 ex_feature)) = Inr (bs ! idx))"
    by blast
  from f[rule_format, of 0] have "bs ! 0 = blocks ! 0" by simp
  moreover from f[rule_format, of 1]
  have "index_select (blocks ! 1) (ex_rand 1 (size0 ex_feature)) = Inr (bs ! 1)" by simp
  ultimately have "bs ! 0 = blocks ! 0"
    and "index_select (blocks ! 1) (ex_rand 1 (size0 ex_feature)) = Inr (bs ! 1)" by blast+
  with a b show ?thesis by blast
qed

lemma length_fold_row:
  assumes rc: "rect feature" and sm: "sum_list dims = ncols feature"
    and rp: "randperm_ok rand"
    and r: "r \<in> set (fold_rows rand feature dims P k)"
  shows "length r = sum_list dims"
proof -
  let ?B = "size0 feature"
  from randperm_okD[OF rp, of k ?B] have pl: "length (rand k ?B) = ?B"
    and pr: "\<And>i. i \<in> set (rand k ?B) \<Longrightarrow> i < ?B" by auto
  from r obtain i where i: "i < ?B"
    and re: "r = concat (map (\<lambda>idx. split_row dims
                 (rows feature ! (if idx \<in> set P then rand k ?B ! i else i)) ! idx)
               [0..<length dims])"
    by (auto simp: fold_rows_def)
  have pi: "rand k ?B ! i < ?B" using pr pl i by simp
  have "map (\<lambda>idx. length (split_row dims
                 (rows feature ! (if idx \<in> set P then rand k ?B ! i else i)) ! idx))
               [0..<length dims] = dims"
  proof (rule nth_equalityI)
    show "length (map (\<lambda>idx. length (split_row dims
                 (rows feature ! (if idx \<in> set P then rand k ?B ! i else i)) ! idx))
               [0..<length dims]) = length dims" by simp
  next
    fix j assume "j < length (map (\<lambda>idx. length (split_row dims
                 (rows feature ! (if idx \<in> set P then rand k ?B ! i else i)) ! idx))
               [0..<length dims])"
    then have j: "j < length dims" by simp
    have "(if j \<in> set P then rand k ?B ! i else i) < ?B" using i pi by simp
    from rect_row_length[OF rc this] sm
    have "sum_list dims \<le> length (rows feature ! (if j \<in> set P then rand k ?B ! i else i))"
      by simp
    from split_row_piece_length[OF this j] j
    show "map (\<lambda>idx. length (split_row dims
                 (rows feature ! (if idx \<in> set P then rand k ?B ! i else i)) ! idx))
               [0..<length dims] ! j = dims ! j" by simp
  qed
  then show ?thesis unfolding re by (simp add: length_concat comp_def)
qed

lemma rect_perm_feat:
  assumes rc: "rect feature" and rp: "randperm_ok rand"
    and ok: "perm_feat rand feature dims P n = Inr out"
  shows "rect out"
proof -
  from perm_feat_InrD[OF ok] have sm: "sum_list dims = ncols feature" by simp
  show ?thesis
    unfolding perm_feat_Inr_eq[OF rp ok] rect_def
    using length_fold_row[OF rc sm rp] by (auto simp: list_all_iff)
qed

lemma concat_split_row:
  "sum_list ds = length r \<Longrightarrow> concat (split_row ds r) = r"
proof (induction ds arbitrary: r)
  case Nil
  then show ?case by simp
next
  case (Cons d ds)
  then have "concat (split_row ds (drop d r)) = drop d r" by (intro Cons.IH) simp
  then show ?case by simp
qed

lemma concat_pieces_row:
  assumes "sum_list ds = length r"
  shows "concat (map (\<lambda>idx. split_row ds r ! idx) [0..<length ds]) = r"
proof -
  have "map (\<lambda>idx. split_row ds r ! idx) [0..<length ds] = split_row ds r"
    using map_nth[of "split_row ds r"] by (simp add: length_split_row)
  then show ?thesis using concat_split_row[OF assms] by simp
qed

lemma fold_rows_nth:
  "i < size0 feature \<Longrightarrow>
     fold_rows rand feature dims P k ! i
     = concat (map (\<lambda>idx. split_row dims
                 (rows feature ! (if idx \<in> set P then rand k (size0 feature) ! i else i)) ! idx)
               [0..<length dims])"
  by (simp add: fold_rows_def cong: if_cong)

lemma concat_chunk_nth:
  assumes "\<forall>x\<in>set xss. length x = B" and "k < length xss" and "i < B"
  shows "concat xss ! (k * B + i) = xss ! k ! i"
proof -
  have "take B (drop (k * B) (concat xss)) ! i = xss ! k ! i"
    by (simp only: take_drop_concat_chunk[OF assms(1,2)])
  moreover have "k * B + i < length (concat xss)"
  proof -
    have "length (concat xss) = length xss * B"
      using assms(1) by (induction xss) simp_all
    moreover have "k * B + i < length xss * B"
    proof -
      have "k * B + i < (k + 1) * B" using assms(3) by simp
      also have "\<dots> \<le> length xss * B" using assms(2) by (intro mult_le_mono1) simp
      finally show ?thesis .
    qed
    ultimately show ?thesis by simp
  qed
  ultimately show ?thesis using assms(3) by simp
qed

lemma fold_rows_all:
  assumes rc: "rect feature" and sm: "sum_list dims = ncols feature"
    and rp: "randperm_ok rand"
    and al: "\<forall>idx<length dims. idx \<in> set P"
  shows "fold_rows rand feature dims P k
         = map (\<lambda>i. rows feature ! i) (rand k (size0 feature))"
proof (rule nth_equalityI)
  from randperm_okD[OF rp, of k "size0 feature"]
  have pl: "length (rand k (size0 feature)) = size0 feature"
    and pr: "\<And>i. i \<in> set (rand k (size0 feature)) \<Longrightarrow> i < size0 feature" by auto
  show "length (fold_rows rand feature dims P k)
      = length (map (\<lambda>i. rows feature ! i) (rand k (size0 feature)))"
    by (simp add: length_fold_rows pl)
  fix i assume "i < length (fold_rows rand feature dims P k)"
  then have i: "i < size0 feature" by (simp add: length_fold_rows)
  have pi: "rand k (size0 feature) ! i < size0 feature" using pr pl i by simp
  have "fold_rows rand feature dims P k ! i
      = concat (map (\<lambda>idx. split_row dims (rows feature ! (rand k (size0 feature) ! i)) ! idx)
                    [0..<length dims])"
    unfolding fold_rows_nth[OF i]
    by (intro arg_cong[where f = concat] map_cong refl) (use al in simp)
  also have "\<dots> = rows feature ! (rand k (size0 feature) ! i)"
    by (rule concat_pieces_row) (use rect_row_length[OF rc pi] sm in simp)
  finally show "fold_rows rand feature dims P k ! i
      = map (\<lambda>i. rows feature ! i) (rand k (size0 feature)) ! i"
    using i pl by simp
qed

lemma fold_rows_none:
  assumes rc: "rect feature" and sm: "sum_list dims = ncols feature"
    and al: "\<forall>idx<length dims. idx \<notin> set P"
  shows "fold_rows rand feature dims P k = rows feature"
proof (rule nth_equalityI)
  show "length (fold_rows rand feature dims P k) = length (rows feature)"
    by (simp add: length_fold_rows size0_def)
  fix i assume "i < length (fold_rows rand feature dims P k)"
  then have i: "i < size0 feature" by (simp add: length_fold_rows)
  have "fold_rows rand feature dims P k ! i
      = concat (map (\<lambda>idx. split_row dims (rows feature ! i) ! idx) [0..<length dims])"
    unfolding fold_rows_nth[OF i]
    by (intro arg_cong[where f = concat] map_cong refl) (use al in simp)
  also have "\<dots> = rows feature ! i"
    by (rule concat_pieces_row) (use rect_row_length[OF rc i] sm in simp)
  finally show "fold_rows rand feature dims P k ! i = rows feature ! i" .
qed

text \<open>C6. For an input of \<open>B\<close> rows whose width is the sum of \<open>feat_dims\<close> and for
  \<open>perm_nflods \<ge> 1\<close>, \_perm\_feat returns a tensor of \<open>perm_nflods * B\<close> rows and of
  width \<open>sum(feat_dims)\<close> (rectangular when the input is): the concatenation along
  dimension 0 of \<open>perm_nflods\<close> permuted copies of the input. Copy \<open>k\<close> is rows
  \<open>k * B, ..., k * B + B - 1\<close> of the result and is built with the \<open>k\<close>-th outcome of
  randperm, a draw of its own: in its row \<open>i\<close> the columns of a permuted feature are
  those of the input row \<open>rand k B ! i\<close>, the columns of the other features those of
  the input row \<open>i\<close>. So a copy is the input with its rows permuted when every feature
  is permuted, and the input itself when none is. Consequently a permuted forward call
  of a tower with permuted features, whose modules keep the number of rows, returns
  \<open>perm_nflods\<close> times as many rows as it is given (after the selection by
  \<open>tower_index\<close>).\<close>

theorem perm_feat_rows:
  assumes sm: "sum_list feat_dims = ncols feature"
    and ne: "feat_dims \<noteq> []"
    and rp: "randperm_ok rand"
    and n1: "1 \<le> n"
  shows "\<exists>out blocks folds.
           perm_feat rand feature feat_dims P n = Inr out
         \<and> size0 out = nat n * size0 feature
         \<and> ncols out = sum_list feat_dims
         \<and> (rect feature \<longrightarrow> rect out)
         \<and> split_last feature feat_dims = Inr blocks
         \<and> length folds = nat n
         \<and> cat0 folds = Inr out
         \<and> (\<forall>k<nat n.
                perm_fold rand blocks P k = Inr (folds ! k)
              \<and> size0 (folds ! k) = size0 feature
              \<and> ncols (folds ! k) = sum_list feat_dims
              \<and> fold_of out (size0 feature) k = folds ! k
              \<and> (\<forall>i<size0 feature.
                    rows out ! (k * size0 feature + i) = rows (folds ! k) ! i
                  \<and> rows (folds ! k) ! i
                    = concat (map (\<lambda>idx. split_row feat_dims
                        (rows feature ! (if idx \<in> set P then rand k (size0 feature) ! i else i))
                          ! idx) [0..<length feat_dims]))
              \<and> (rect feature \<and> (\<forall>idx<length feat_dims. idx \<in> set P)
                   \<longrightarrow> index_select feature (rand k (size0 feature)) = Inr (folds ! k))
              \<and> (rect feature \<and> (\<forall>idx<length feat_dims. idx \<notin> set P)
                   \<longrightarrow> folds ! k = feature))
         \<and> (\<forall>T F ix res.
               forward T rand F ix True = Inr res \<and> perm_feats_index T \<noteq> []
               \<and> keeps_rows (mlp_forward (mlp T)) \<and> (\<forall>s. senet T = Some s \<longrightarrow> keeps_rows s)
               \<longrightarrow> size0 res = nat (perm_nflods T)
                                 * (case ix of None \<Rightarrow> size0 F | Some i \<Rightarrow> length i))"
proof -
  let ?B = "size0 feature"
  let ?fold = "\<lambda>k. \<lparr>ncols = sum_list feat_dims, rows = fold_rows rand feature feat_dims P k\<rparr>"
  let ?folds = "map ?fold [0..<nat n]"
  let ?out = "\<lparr>ncols = sum_list feat_dims,
              rows = concat (map (fold_rows rand feature feat_dims P) [0..<nat n])\<rparr>"
  obtain blocks where sp: "split_last feature feat_dims = Inr blocks"
    using sm by (simp add: split_last_def)
  have ok: "perm_feat rand feature feat_dims P n = Inr ?out"
    by (rule perm_feat_ok[OF sm ne rp n1])
  have sz: "size0 ?out = nat n * ?B"
    by (simp add: size0_def length_concat_folds)
  have rc: "rect feature \<longrightarrow> rect ?out"
    using rect_perm_feat[OF _ rp ok] by blast
  from randperm_okD[OF rp] have pl: "\<And>k. length (rand k ?B) = ?B"
    and pr: "\<And>k i. i \<in> set (rand k ?B) \<Longrightarrow> i < ?B" by auto
  have chunks: "\<forall>x\<in>set (map (fold_rows rand feature feat_dims P) [0..<nat n]). length x = ?B"
    by (auto simp: length_fold_rows)
  have fk: "\<forall>k<nat n.
                perm_fold rand blocks P k = Inr (?folds ! k)
              \<and> size0 (?folds ! k) = ?B
              \<and> ncols (?folds ! k) = sum_list feat_dims
              \<and> fold_of ?out ?B k = ?folds ! k
              \<and> (\<forall>i<?B.
                    rows ?out ! (k * ?B + i) = rows (?folds ! k) ! i
                  \<and> rows (?folds ! k) ! i
                    = concat (map (\<lambda>idx. split_row feat_dims
                        (rows feature ! (if idx \<in> set P then rand k ?B ! i else i))
                          ! idx) [0..<length feat_dims]))
              \<and> (rect feature \<and> (\<forall>idx<length feat_dims. idx \<in> set P)
                   \<longrightarrow> index_select feature (rand k ?B) = Inr (?folds ! k))
              \<and> (rect feature \<and> (\<forall>idx<length feat_dims. idx \<notin> set P)
                   \<longrightarrow> ?folds ! k = feature)"
  proof (intro allI impI)
    fix k assume k: "k < nat n"
    have a: "perm_fold rand blocks P k = Inr (?folds ! k)"
      using perm_fold_ok[OF sp ne rp, of P k] k by simp
    have b: "size0 (?folds ! k) = ?B" "ncols (?folds ! k) = sum_list feat_dims"
      using k by (simp_all add: size0_def length_fold_rows)
    have "take ?B (drop (k * ?B) (concat (map (fold_rows rand feature feat_dims P) [0..<nat n])))
        = map (fold_rows rand feature feat_dims P) [0..<nat n] ! k"
      by (rule take_drop_concat_chunk[OF chunks]) (use k in simp)
    then have c: "fold_of ?out ?B k = ?folds ! k"
      using k by (simp add: fold_of_def)
    have d: "\<forall>i<?B. rows ?out ! (k * ?B + i) = rows (?folds ! k) ! i
                  \<and> rows (?folds ! k) ! i
                    = concat (map (\<lambda>idx. split_row feat_dims
                        (rows feature ! (if idx \<in> set P then rand k ?B ! i else i))
                          ! idx) [0..<length feat_dims])"
    proof (intro allI impI conjI)
      fix i assume i: "i < ?B"
      have "concat (map (fold_rows rand feature feat_dims P) [0..<nat n]) ! (k * ?B + i)
          = map (fold_rows rand feature feat_dims P) [0..<nat n] ! k ! i"
        by (rule concat_chunk_nth[OF chunks _ i]) (use k in simp)
      then show "rows ?out ! (k * ?B + i) = rows (?folds ! k) ! i" using k by simp
      show "rows (?folds ! k) ! i
                    = concat (map (\<lambda>idx. split_row feat_dims
                        (rows feature ! (if idx \<in> set P then rand k ?B ! i else i))
                          ! idx) [0..<length feat_dims])"
        using k fold_rows_nth[OF i, of rand feat_dims P k] by simp
    qed
    have e: "rect feature \<and> (\<forall>idx<length feat_dims. idx \<in> set P)
                   \<longrightarrow> index_select feature (rand k ?B) = Inr (?folds ! k)"
    proof
      assume h: "rect feature \<and> (\<forall>idx<length feat_dims. idx \<in> set P)"
      have "\<forall>i\<in>set (rand k ?B). i < ?B" using pr by blast
      from index_select_ok[OF this] fold_rows_all[OF _ sm rp, of P k] h
      show "index_select feature (rand k ?B) = Inr (?folds ! k)"
        using k sm by simp
    qed
    have f: "rect feature \<and> (\<forall>idx<length feat_dims. idx \<notin> set P) \<longrightarrow> ?folds ! k = feature"
    proof
      assume h: "rect feature \<and> (\<forall>idx<length feat_dims. idx \<notin> set P)"
      from fold_rows_none[OF _ sm, of P rand k] h
      show "?folds ! k = feature" using k sm by simp
    qed
    from a b c d e f show "perm_fold rand blocks P k = Inr (?folds ! k)
              \<and> size0 (?folds ! k) = ?B
              \<and> ncols (?folds ! k) = sum_list feat_dims
              \<and> fold_of ?out ?B k = ?folds ! k
              \<and> (\<forall>i<?B.
                    rows ?out ! (k * ?B + i) = rows (?folds ! k) ! i
                  \<and> rows (?folds ! k) ! i
                    = concat (map (\<lambda>idx. split_row feat_dims
                        (rows feature ! (if idx \<in> set P then rand k ?B ! i else i))
                          ! idx) [0..<length feat_dims]))
              \<and> (rect feature \<and> (\<forall>idx<length feat_dims. idx \<in> set P)
                   \<longrightarrow> index_select feature (rand k ?B) = Inr (?folds ! k))
              \<and> (rect feature \<and> (\<forall>idx<length feat_dims. idx \<notin> set P)
                   \<longrightarrow> ?folds ! k = feature)"
      by (intro conjI)
  qed
  have nn: "?folds \<noteq> []" using n1 by simp
  have al: "\<forall>u\<in>set ?folds. ncols u = sum_list feat_dims" by simp
  have ct: "cat0 ?folds = Inr ?out"
    by (simp only: cat0_ok[OF nn al]) (simp add: comp_def)
  have fw: "\<forall>T F ix res.
               forward T rand F ix True = Inr res \<and> perm_feats_index T \<noteq> []
               \<and> keeps_rows (mlp_forward (mlp T)) \<and> (\<forall>s. senet T = Some s \<longrightarrow> keeps_rows s)
               \<longrightarrow> size0 res = nat (perm_nflods T)
                                 * (case ix of None \<Rightarrow> size0 F | Some i \<Rightarrow> length i)"
    using forward_permuted_rows[OF rp] by blast
  have ln: "length ?folds = nat n" by simp
  have nc: "ncols ?out = sum_list feat_dims" by simp
  from ok sz nc rc sp ln ct fk fw show ?thesis
    by (intro exI[of _ ?out] exI[of _ blocks] exI[of _ ?folds] conjI)
qed


lemma keeps_rows_Inr: "keeps_rows Inr"
  by (simp add: keeps_rows_def)

lemma alt_rand_ok: "randperm_ok alt_rand"
  by (auto simp: randperm_ok_def alt_rand_def)

lemma list4_nth: "length xs = 4 \<Longrightarrow> xs = [xs ! 0, xs ! 1, xs ! 2, xs ! 3]"
  by (rule nth_equalityI) (auto simp: less_Suc_eq numeral_eq_Suc)

theorem perm_feat_rows_witness:
  "(\<exists>out. perm_feat alt_rand ex_feature [1, 2] [1] 2 = Inr out \<and> size0 out = 4 \<and> ncols out = 3
          \<and> rect out \<and> rows out = [[1, 5, 6], [4, 2, 3], [1, 2, 3], [4, 5, 6]])
   \<and> (\<exists>res. forward ex_tower alt_rand ex_feature None True = Inr res \<and> size0 res = 4)"
proof -
  have h: "sum_list [1, 2] = ncols ex_feature" "[1, 2] \<noteq> ([] :: nat list)" "(1::int) \<le> 2"
    by (simp_all add: ex_feature_def)
  from perm_feat_rows[OF h(1) h(2) alt_rand_ok h(3), of "[1]"]
  obtain out blocks folds where o: "perm_feat alt_rand ex_feature [1, 2] [1] 2 = Inr out"
      "size0 out = nat 2 * size0 ex_feature" "ncols out = sum_list [1, 2]"
      "rect ex_feature \<longrightarrow> rect out"
    and fk: "\<forall>k<nat 2.
                perm_fold alt_rand blocks [1] k = Inr (folds ! k)
              \<and> size0 (folds ! k) = size0 ex_feature
              \<and> ncols (folds ! k) = sum_list [1, 2]
              \<and> fold_of out (size0 ex_feature) k = folds ! k
              \<and> (\<forall>i<size0 ex_feature.
                    rows out ! (k * size0 ex_feature + i) = rows (folds ! k) ! i
                  \<and> rows (folds ! k) ! i
                    = concat (map (\<lambda>idx. split_row [1, 2]
                        (rows ex_feature ! (if idx \<in> set [1] then alt_rand k (size0 ex_feature) ! i else i))
                          ! idx) [0..<length [1::nat, 2]]))
              \<and> (rect ex_feature \<and> (\<forall>idx<length [1::nat, 2]. idx \<in> set [1])
                   \<longrightarrow> index_select ex_feature (alt_rand k (size0 ex_feature)) = Inr (folds ! k))
              \<and> (rect ex_feature \<and> (\<forall>idx<length [1::nat, 2]. idx \<notin> set [1])
                   \<longrightarrow> folds ! k = ex_feature)"
    and fw: "\<forall>T F ix res.
               forward T alt_rand F ix True = Inr res \<and> perm_feats_index T \<noteq> []
               \<and> keeps_rows (mlp_forward (mlp T)) \<and> (\<forall>s. senet T = Some s \<longrightarrow> keeps_rows s)
               \<longrightarrow> size0 res = nat (perm_nflods T)
                                 * (case ix of None \<Rightarrow> size0 F | Some i \<Rightarrow> length i)"
    by blast
  have B: "size0 ex_feature = 2" by (simp add: ex_feature_def size0_def)
  have r: "\<And>k i. k < 2 \<Longrightarrow> i < 2 \<Longrightarrow> rows out ! (k * 2 + i)
        = concat (map (\<lambda>idx. split_row [1, 2]
                        (rows ex_feature ! (if idx \<in> set [1] then alt_rand k 2 ! i else i))
                          ! idx) [0..<length [1::nat, 2]])"
    using fk unfolding B by simp
  have r0: "rows out ! 0 = [1, 5, 6]"
    using r[of 0 0] by (simp add: ex_feature_def alt_rand_def upt_conv_Cons)
  have r1: "rows out ! 1 = [4, 2, 3]"
    using r[of 0 1] by (simp add: ex_feature_def alt_rand_def upt_conv_Cons)
  have r2: "rows out ! 2 = [1, 2, 3]"
    using r[of 1 0] by (simp add: ex_feature_def alt_rand_def upt_conv_Cons)
  have r3: "rows out ! 3 = [4, 5, 6]"
    using r[of 1 1] by (simp add: ex_feature_def alt_rand_def upt_conv_Cons)
  have len: "length (rows out) = 4" using o(2) B by (simp add: size0_def)
  have rws: "rows out = [[1, 5, 6], [4, 2, 3], [1, 2, 3], [4, 5, 6]]"
    using list4_nth[OF len] r0 r1 r2 r3 by simp
  have rc: "rect out" using o(4) by (simp add: rect_def ex_feature_def)
  have t: "perm_feats_index ex_tower \<noteq> []" "keeps_rows (mlp_forward (mlp ex_tower))"
      "\<forall>s. senet ex_tower = Some s \<longrightarrow> keeps_rows s"
    by (simp_all add: ex_tower_def ex_mlp_def keeps_rows_Inr)
  have nc: "ncols out = 3" using o(3) by simp
  obtain Lo where lo: "linear_forward ex_linear out = Inr Lo"
    using nc by (simp add: linear_forward_def ex_linear_def)
  have a: "tower_similarity ex_tower \<noteq> COSINE" by (simp add: ex_tower_def)
  have "forward ex_tower alt_rand ex_feature None True =
       Inr (if tower_similarity ex_tower = COSINE then F_normalize Lo else Lo)"
  proof (rule forward_stages)
    show "(case None of None \<Rightarrow> Inr ex_feature | Some i \<Rightarrow> index_select ex_feature i) = Inr ex_feature"
      by simp
    show "(if True \<and> length (perm_feats_index ex_tower) > 0
             then perm_feat alt_rand ex_feature (feature_group_dims ex_tower) (perm_feats_index ex_tower) (perm_nflods ex_tower)
             else Inr ex_feature) = Inr out"
      using o(1) by (simp add: ex_tower_def)
    show "(if tower_use_senet ex_tower
             then (case senet ex_tower of None \<Rightarrow> Inl (AttributeError ''senet'') | Some s \<Rightarrow> s out)
             else Inr out) = Inr out"
      by (simp add: ex_tower_def)
    show "mlp_forward (mlp ex_tower) out = Inr out"
      by (simp add: ex_tower_def ex_mlp_def)
    show "(if tower_output_dim ex_tower > 0
             then (case output_layer ex_tower of None \<Rightarrow> Inl (AttributeError ''output'')
                   | Some L \<Rightarrow> linear_forward L out)
             else Inr out) = Inr Lo"
      using lo by (simp add: ex_tower_def)
  qed
  with a have fo: "forward ex_tower alt_rand ex_feature None True = Inr Lo" by simp
  from fw[rule_format, of ex_tower ex_feature None Lo] fo t
  have "size0 Lo = 4" by (simp add: ex_tower_def B)
  with fo have "\<exists>res. forward ex_tower alt_rand ex_feature None True = Inr res \<and> size0 res = 4"
    by blast
  moreover have "size0 out = 4" using o(2) B by simp
  ultimately show ?thesis using o(1) nc rc rws by blast
qed

subsection \<open>Normalization\<close>















subsection \<open>The loop of predict\<close>

lemma lookup_eq_Inr: "lookup d k = Inr v \<longleftrightarrow> d k = Some v"
  by (simp add: lookup_def split: option.splits)

lemma getattr_eq_Inr: "getattr M a = Inr T \<longleftrightarrow> attrs M a = Some T"
  by (simp add: getattr_def split: option.splits)

lemma predict_tower_eq_Inr:
  "predict_tower M rand batch G E i tc = Inr v \<longleftrightarrow>
   (\<exists>ch T F U pos items base S.
      labels batch ''channel'' = Some ch
    \<and> attrs M (input_name tc @ ''_tower'') = Some T
    \<and> G (input_name tc) = Some F
    \<and> forward T (rand (2 * i + 1)) F (Some (where_eq ch i)) False = Inr U
    \<and> index_select E (where_eq ch i) = Inr pos
    \<and> cat0 [pos, slice_from E (length ch)] = Inr items
    \<and> sim M U items = Inr base
    \<and> (if input_name tc \<in> dom (user_tower_perm_feat_dict M) \<and> training M
        then \<exists>pf Up A neg.
               user_tower_perm_feat_dict M (input_name tc) = Some pf
             \<and> forward T (rand (2 * i + 2)) F (Some (where_eq ch i)) True = Inr Up
             \<and> reshape3 Up (nflods pf) = Inr A
             \<and> einsum_bij_ij_ib A pos = Inr neg
             \<and> cat_last [base, neg] = Inr S
        else S = base)
    \<and> v = div_scalar S (temperature (model_config M)))"
  unfolding predict_tower_def Let_def bind_e_eq_Inr lookup_eq_Inr getattr_eq_Inr
  apply (cases "input_name tc \<in> dom (user_tower_perm_feat_dict M) \<and> training M")
   apply (simp_all only: if_P if_not_P if_True if_False bind_e_eq_Inr lookup_eq_Inr
        getattr_eq_Inr sum.inject option.inject)
   apply (rule iffI; clarsimp)
  apply (rule iffI; clarsimp)
  done

lemma predict_eq_Inr:
  "predict M rand batch = Inr D \<longleftrightarrow>
   (\<exists>G IT FI E.
      eg_forward (embedding_group M) batch = Inr G
    \<and> attrs M ''item_tower'' = Some IT
    \<and> G (input_name (item_tower (model_config M))) = Some FI
    \<and> forward IT (rand 0) FI None False = Inr E
    \<and> predict_loop M rand batch G E (enumerate 0 (user_tower (model_config M))) Map.empty
        = Inr D)"
  unfolding predict_def bind_e_eq_Inr lookup_eq_Inr getattr_eq_Inr by blast

lemma predict_loop_towers:
  assumes "predict_loop M rand batch G E ts d = Inr D" and "(i, tc) \<in> set ts"
  shows "\<exists>v. predict_tower M rand batch G E i tc = Inr v"
  using assms
proof (induction ts arbitrary: d)
  case Nil
  then show ?case by simp
next
  case (Cons t ts)
  obtain j tj where t: "t = (j, tj)" by (cases t)
  from Cons.prems(1) t obtain w where
    w: "predict_tower M rand batch G E j tj = Inr w"
    and rest: "predict_loop M rand batch G E ts (d(''similarity_'' @ input_name tj \<mapsto> w)) = Inr D"
    by (auto simp: bind_e_eq_Inr)
  show ?case
  proof (cases "(i, tc) = t")
    case True
    with t w show ?thesis by auto
  next
    case False
    with Cons.prems(2) have "(i, tc) \<in> set ts" by auto
    from Cons.IH[OF rest this] show ?thesis .
  qed
qed




lemma enumerate_nth_mem: "i < length xs \<Longrightarrow> (i, xs ! i) \<in> set (enumerate 0 xs)"
  by (simp add: enumerate_eq_zip in_set_zip) (metis add_0 fst_conv length_upt minus_nat.diff_0 nth_upt snd_conv)

lemma map_snd_enumerate: "map (\<lambda>(i, tc). f tc) (enumerate 0 xs) = map f xs"
  by (rule nth_equalityI) (simp_all add: nth_enumerate_eq)




lemma forward_select:
  "index_select F ix = Inr X \<Longrightarrow> forward T r F (Some ix) p = forward T r X None p"
  by (simp add: forward_def bind_e_Inr)






lemma ex_where: "where_eq [0, 1, 0] 0 = [0, 2]"
  by (simp add: where_eq_def upt_conv_Cons)

lemma ex_select_user: "index_select ex_user_feature [0, 2] = Inr ex_feature"
  by (simp add: index_select_def ex_user_feature_def ex_feature_def size0_def)

lemma ex_item_emb:
  "forward ex_item_tower r ex_item_feature None False
     = Inr \<lparr>ncols = 2, rows = [[1, 0], [0, 1], [0, 0], [1, 1]]\<rparr>"
proof -
  have "forward ex_item_tower r ex_item_feature None False =
     Inr (if tower_similarity ex_item_tower = COSINE
          then F_normalize \<lparr>ncols = 2, rows = [[1, 0], [0, 1], [0, 0], [1, 1]]\<rparr>
          else \<lparr>ncols = 2, rows = [[1, 0], [0, 1], [0, 0], [1, 1]]\<rparr>)"
  proof (rule forward_stages)
    show "(case None of None \<Rightarrow> Inr ex_item_feature | Some i \<Rightarrow> index_select ex_item_feature i)
        = Inr ex_item_feature"
      by simp
    show "(if False \<and> length (perm_feats_index ex_item_tower) > 0
             then perm_feat r ex_item_feature (feature_group_dims ex_item_tower)
                    (perm_feats_index ex_item_tower) (perm_nflods ex_item_tower)
             else Inr ex_item_feature) = Inr ex_item_feature"
      by simp
    show "(if tower_use_senet ex_item_tower
             then (case senet ex_item_tower of None \<Rightarrow> Inl (AttributeError ''senet'')
                   | Some s \<Rightarrow> s ex_item_feature)
             else Inr ex_item_feature) = Inr ex_item_feature"
      by (simp add: ex_item_tower_def)
    show "mlp_forward (mlp ex_item_tower) ex_item_feature = Inr ex_item_feature"
      by (simp add: ex_item_tower_def ex_mlp_def)
    show "(if tower_output_dim ex_item_tower > 0
             then (case output_layer ex_item_tower of None \<Rightarrow> Inl (AttributeError ''output'')
                   | Some L \<Rightarrow> linear_forward L ex_item_feature)
             else Inr ex_item_feature) = Inr \<lparr>ncols = 2, rows = [[1, 0], [0, 1], [0, 0], [1, 1]]\<rparr>"
      by (simp add: ex_item_tower_def linear_forward_def ex_linear_def ex_item_feature_def
          upt_conv_Cons)
  qed
  then show ?thesis by (simp add: ex_item_tower_def)
qed

lemma ex_pos:
  "index_select \<lparr>ncols = 2, rows = [[1, 0], [0, 1], [0, 0], [1, 1]]\<rparr> [0, 2]
     = Inr \<lparr>ncols = 2, rows = [[1, 0], [0, 0]]\<rparr>"
  by (simp add: index_select_def size0_def)

lemma ex_items:
  "cat0 [\<lparr>ncols = 2, rows = [[1, 0], [0, 0]]\<rparr>,
         slice_from \<lparr>ncols = 2, rows = [[1, 0], [0, 1], [0, 0], [1, 1]]\<rparr> (length [0, 1, 0 :: int])]
     = Inr \<lparr>ncols = 2, rows = [[1, 0], [0, 0], [1, 1]]\<rparr>"
  by (simp add: cat0_def slice_from_def)

lemma ex_base:
  "mm_sim \<lparr>ncols = 2, rows = [[1, 2], [4, 5]]\<rparr> \<lparr>ncols = 2, rows = [[1, 0], [0, 0], [1, 1]]\<rparr>
     = Inr \<lparr>ncols = 3, rows = [[1, 0, 3], [4, 0, 9]]\<rparr>"
  by (simp add: mm_sim_def size0_def upt_conv_Cons)

lemma ex_reshape:
  "reshape3 \<lparr>ncols = 2, rows = [[1, 5], [4, 2], [1, 5], [4, 2]]\<rparr> 2
     = Inr \<lparr>nrows3 = 2, ncols3 = 2, slices = [[[1, 5], [4, 2]], [[1, 5], [4, 2]]]\<rparr>"
  by (simp add: reshape3_def size0_def upt_conv_Cons)

lemma ex_einsum:
  "einsum_bij_ij_ib \<lparr>nrows3 = 2, ncols3 = 2, slices = [[[1, 5], [4, 2]], [[1, 5], [4, 2]]]\<rparr>
       \<lparr>ncols = 2, rows = [[1, 0], [0, 0]]\<rparr>
     = Inr \<lparr>ncols = 2, rows = [[1, 1], [0, 0]]\<rparr>"
  by (simp add: einsum_bij_ij_ib_def bdim_def size0_def upt_conv_Cons)

lemma ex_widen:
  "cat_last [\<lparr>ncols = 3, rows = [[1, 0, 3], [4, 0, 9]]\<rparr>, \<lparr>ncols = 2, rows = [[1, 1], [0, 0]]\<rparr>]
     = Inr \<lparr>ncols = 5, rows = [[1, 0, 3, 1, 1], [4, 0, 9, 0, 0]]\<rparr>"
  by (simp add: cat_last_def size0_def upt_conv_Cons)

lemma ex_scaled:
  "div_scalar \<lparr>ncols = 5, rows = [[1, 0, 3, 1, 1], [4, 0, 9, 0, 0]]\<rparr> 2
     = \<lparr>ncols = 5, rows = [[1 / 2, 0, 3 / 2, 1 / 2, 1 / 2], [2, 0, 9 / 2, 0, 0]]\<rparr>"
  by (simp add: div_scalar_def)

lemma ex_user_emb:
  "forward ex_tower r ex_user_feature (Some [0, 2]) False
     = Inr \<lparr>ncols = 2, rows = [[1, 2], [4, 5]]\<rparr>"
  by (simp only: forward_select[OF ex_select_user] ex_forward_plain)

lemma ex_user_perm_emb:
  "forward ex_tower ex_rand ex_user_feature (Some [0, 2]) True
     = Inr \<lparr>ncols = 2, rows = [[1, 5], [4, 2], [1, 5], [4, 2]]\<rparr>"
  by (simp only: forward_select[OF ex_select_user] ex_forward_permuted)

lemma ex_predict_tower:
  "predict_tower ex_model (\<lambda>c. ex_rand) ex_batch (data ex_batch)
       \<lparr>ncols = 2, rows = [[1, 0], [0, 1], [0, 0], [1, 1]]\<rparr> 0
       \<lparr>input_name = ''u'', mlp_config = ()\<rparr>
     = Inr \<lparr>ncols = 5, rows = [[1 / 2, 0, 3 / 2, 1 / 2, 1 / 2], [2, 0, 9 / 2, 0, 0]]\<rparr>"
proof -
  have listed: "input_name \<lparr>input_name = ''u'', mlp_config = ()\<rparr>
        \<in> dom (user_tower_perm_feat_dict ex_model) \<and> training ex_model"
    by (simp add: ex_model_def)
  have "\<exists>ch T F U pos items base S.
      labels ex_batch ''channel'' = Some ch
    \<and> attrs ex_model (input_name \<lparr>input_name = ''u'', mlp_config = ()\<rparr> @ ''_tower'') = Some T
    \<and> data ex_batch (input_name \<lparr>input_name = ''u'', mlp_config = ()\<rparr>) = Some F
    \<and> forward T ex_rand F (Some (where_eq ch 0)) False = Inr U
    \<and> index_select \<lparr>ncols = 2, rows = [[1, 0], [0, 1], [0, 0], [1, 1]]\<rparr> (where_eq ch 0) = Inr pos
    \<and> cat0 [pos, slice_from \<lparr>ncols = 2, rows = [[1, 0], [0, 1], [0, 0], [1, 1]]\<rparr> (length ch)]
        = Inr items
    \<and> sim ex_model U items = Inr base
    \<and> (\<exists>pf Up A neg.
               user_tower_perm_feat_dict ex_model (input_name \<lparr>input_name = ''u'', mlp_config = ()\<rparr>)
                 = Some pf
             \<and> forward T ex_rand F (Some (where_eq ch 0)) True = Inr Up
             \<and> reshape3 Up (nflods pf) = Inr A
             \<and> einsum_bij_ij_ib A pos = Inr neg
             \<and> cat_last [base, neg] = Inr S)
    \<and> \<lparr>ncols = 5, rows = [[1 / 2, 0, 3 / 2, 1 / 2, 1 / 2], [2, 0, 9 / 2, 0, 0]]\<rparr>
        = div_scalar S (temperature (model_config ex_model))"
  proof (intro exI conjI)
    show "labels ex_batch ''channel'' = Some [0, 1, 0]" by (simp add: ex_batch_def)
    show "attrs ex_model (input_name \<lparr>input_name = ''u'', mlp_config = ()\<rparr> @ ''_tower'')
        = Some ex_tower" by (simp add: ex_model_def)
    show "data ex_batch (input_name \<lparr>input_name = ''u'', mlp_config = ()\<rparr>) = Some ex_user_feature"
      by (simp add: ex_batch_def)
    show "forward ex_tower ex_rand ex_user_feature (Some (where_eq [0, 1, 0] 0)) False
        = Inr \<lparr>ncols = 2, rows = [[1, 2], [4, 5]]\<rparr>"
      by (simp only: ex_where ex_user_emb)
    show "index_select \<lparr>ncols = 2, rows = [[1, 0], [0, 1], [0, 0], [1, 1]]\<rparr> (where_eq [0, 1, 0] 0)
        = Inr \<lparr>ncols = 2, rows = [[1, 0], [0, 0]]\<rparr>"
      by (simp only: ex_where ex_pos)
    show "cat0 [\<lparr>ncols = 2, rows = [[1, 0], [0, 0]]\<rparr>,
         slice_from \<lparr>ncols = 2, rows = [[1, 0], [0, 1], [0, 0], [1, 1]]\<rparr> (length [0, 1, 0 :: int])]
        = Inr \<lparr>ncols = 2, rows = [[1, 0], [0, 0], [1, 1]]\<rparr>"
      by (rule ex_items)
    show "sim ex_model \<lparr>ncols = 2, rows = [[1, 2], [4, 5]]\<rparr>
            \<lparr>ncols = 2, rows = [[1, 0], [0, 0], [1, 1]]\<rparr>
        = Inr \<lparr>ncols = 3, rows = [[1, 0, 3], [4, 0, 9]]\<rparr>"
      using ex_base by (simp add: ex_model_def)
    show "user_tower_perm_feat_dict ex_model (input_name \<lparr>input_name = ''u'', mlp_config = ()\<rparr>)
        = Some \<lparr>tower_name = ''u'', features = [''b''], nflods = 2\<rparr>"
      by (simp add: ex_model_def)
    show "forward ex_tower ex_rand ex_user_feature (Some (where_eq [0, 1, 0] 0)) True
        = Inr \<lparr>ncols = 2, rows = [[1, 5], [4, 2], [1, 5], [4, 2]]\<rparr>"
      by (simp only: ex_where ex_user_perm_emb)
    show "reshape3 \<lparr>ncols = 2, rows = [[1, 5], [4, 2], [1, 5], [4, 2]]\<rparr>
            (nflods \<lparr>tower_name = ''u'', features = [''b''], nflods = 2\<rparr>)
        = Inr \<lparr>nrows3 = 2, ncols3 = 2, slices = [[[1, 5], [4, 2]], [[1, 5], [4, 2]]]\<rparr>"
      using ex_reshape by simp
    show "einsum_bij_ij_ib \<lparr>nrows3 = 2, ncols3 = 2, slices = [[[1, 5], [4, 2]], [[1, 5], [4, 2]]]\<rparr>
       \<lparr>ncols = 2, rows = [[1, 0], [0, 0]]\<rparr>
     = Inr \<lparr>ncols = 2, rows = [[1, 1], [0, 0]]\<rparr>" by (rule ex_einsum)
    show "cat_last [\<lparr>ncols = 3, rows = [[1, 0, 3], [4, 0, 9]]\<rparr>, \<lparr>ncols = 2, rows = [[1, 1], [0, 0]]\<rparr>]
     = Inr \<lparr>ncols = 5, rows = [[1, 0, 3, 1, 1], [4, 0, 9, 0, 0]]\<rparr>" by (rule ex_widen)
    show "\<lparr>ncols = 5, rows = [[1 / 2, 0, 3 / 2, 1 / 2, 1 / 2], [2, 0, 9 / 2, 0, 0]]\<rparr>
        = div_scalar \<lparr>ncols = 5, rows = [[1, 0, 3, 1, 1], [4, 0, 9, 0, 0]]\<rparr>
            (temperature (model_config ex_model))"
      using ex_scaled by (simp add: ex_model_def ex_config_def)
  qed
  with listed show ?thesis
    unfolding predict_tower_eq_Inr by (simp only: if_True simp_thms)
qed

lemma ex_predict:
  "predict ex_model (\<lambda>c. ex_rand) ex_batch
     = Inr [''similarity_u'' \<mapsto>
            \<lparr>ncols = 5, rows = [[1 / 2, 0, 3 / 2, 1 / 2, 1 / 2], [2, 0, 9 / 2, 0, 0]]\<rparr>]"
proof -
  have ut: "enumerate 0 (user_tower (model_config ex_model))
      = [(0, \<lparr>input_name = ''u'', mlp_config = ()\<rparr>)]"
    by (simp add: ex_model_def ex_config_def)
  have lp: "predict_loop ex_model (\<lambda>c. ex_rand) ex_batch (data ex_batch)
       \<lparr>ncols = 2, rows = [[1, 0], [0, 1], [0, 0], [1, 1]]\<rparr>
       (enumerate 0 (user_tower (model_config ex_model))) Map.empty
     = Inr [''similarity_u'' \<mapsto>
            \<lparr>ncols = 5, rows = [[1 / 2, 0, 3 / 2, 1 / 2, 1 / 2], [2, 0, 9 / 2, 0, 0]]\<rparr>]"
    unfolding ut by (simp add: ex_predict_tower bind_e_Inr)
  have "\<exists>G IT FI E.
      eg_forward (embedding_group ex_model) ex_batch = Inr G
    \<and> attrs ex_model ''item_tower'' = Some IT
    \<and> G (input_name (item_tower (model_config ex_model))) = Some FI
    \<and> forward IT ex_rand FI None False = Inr E
    \<and> predict_loop ex_model (\<lambda>c. ex_rand) ex_batch G E
         (enumerate 0 (user_tower (model_config ex_model))) Map.empty
        = Inr [''similarity_u'' \<mapsto>
            \<lparr>ncols = 5, rows = [[1 / 2, 0, 3 / 2, 1 / 2, 1 / 2], [2, 0, 9 / 2, 0, 0]]\<rparr>]"
  proof (intro exI conjI)
    show "eg_forward (embedding_group ex_model) ex_batch = Inr (data ex_batch)"
      by (simp add: ex_model_def ex_eg_def)
    show "attrs ex_model ''item_tower'' = Some ex_item_tower" by (simp add: ex_model_def)
    show "data ex_batch (input_name (item_tower (model_config ex_model))) = Some ex_item_feature"
      by (simp add: ex_model_def ex_config_def ex_batch_def)
    show "forward ex_item_tower ex_rand ex_item_feature None False
        = Inr \<lparr>ncols = 2, rows = [[1, 0], [0, 1], [0, 0], [1, 1]]\<rparr>" by (rule ex_item_emb)
    show "predict_loop ex_model (\<lambda>c. ex_rand) ex_batch (data ex_batch)
       \<lparr>ncols = 2, rows = [[1, 0], [0, 1], [0, 0], [1, 1]]\<rparr>
       (enumerate 0 (user_tower (model_config ex_model))) Map.empty
     = Inr [''similarity_u'' \<mapsto>
            \<lparr>ncols = 5, rows = [[1 / 2, 0, 3 / 2, 1 / 2, 1 / 2], [2, 0, 9 / 2, 0, 0]]\<rparr>]"
      by (rule lp)
  qed
  then show ?thesis unfolding predict_eq_Inr .
qed




lemma cat0_pair_rows:
  "cat0 [a, b] = Inr c \<Longrightarrow> rows c = rows a @ rows b \<and> ncols c = ncols a"
  by (auto simp: cat0_def split: if_splits)




lemma predict_item_rows:
  assumes ok: "predict M rand batch = Inr D"
  shows "\<exists>G IT FI E.
      eg_forward (embedding_group M) batch = Inr G
    \<and> attrs M ''item_tower'' = Some IT
    \<and> G (input_name (item_tower (model_config M))) = Some FI
    \<and> forward IT (rand 0) FI None False = Inr E
    \<and> (\<forall>i<length (user_tower (model_config M)).
          \<exists>ch T F U pos items base.
             labels batch ''channel'' = Some ch
           \<and> attrs M (input_name (user_tower (model_config M) ! i) @ ''_tower'') = Some T
           \<and> G (input_name (user_tower (model_config M) ! i)) = Some F
           \<and> forward T (rand (2 * i + 1)) F (Some (where_eq ch i)) False = Inr U
           \<and> index_select E (where_eq ch i) = Inr pos
           \<and> rows pos = map (\<lambda>j. rows E ! j) (where_eq ch i)
           \<and> cat0 [pos, slice_from E (length ch)] = Inr items
           \<and> rows items = map (\<lambda>j. rows E ! j) (where_eq ch i) @ drop (length ch) (rows E)
           \<and> set (rows items) \<subseteq> set (rows E)
           \<and> sim M U items = Inr base)"
proof -
  from ok[unfolded predict_eq_Inr] obtain G IT FI E where
    g: "eg_forward (embedding_group M) batch = Inr G"
    and it: "attrs M ''item_tower'' = Some IT"
    and fi: "G (input_name (item_tower (model_config M))) = Some FI"
    and e: "forward IT (rand 0) FI None False = Inr E"
    and lp: "predict_loop M rand batch G E (enumerate 0 (user_tower (model_config M))) Map.empty
        = Inr D"
    by blast
  have "\<forall>i<length (user_tower (model_config M)).
          \<exists>ch T F U pos items base.
             labels batch ''channel'' = Some ch
           \<and> attrs M (input_name (user_tower (model_config M) ! i) @ ''_tower'') = Some T
           \<and> G (input_name (user_tower (model_config M) ! i)) = Some F
           \<and> forward T (rand (2 * i + 1)) F (Some (where_eq ch i)) False = Inr U
           \<and> index_select E (where_eq ch i) = Inr pos
           \<and> rows pos = map (\<lambda>j. rows E ! j) (where_eq ch i)
           \<and> cat0 [pos, slice_from E (length ch)] = Inr items
           \<and> rows items = map (\<lambda>j. rows E ! j) (where_eq ch i) @ drop (length ch) (rows E)
           \<and> set (rows items) \<subseteq> set (rows E)
           \<and> sim M U items = Inr base"
  proof (intro allI impI)
    fix i assume i: "i < length (user_tower (model_config M))"
    let ?tc = "user_tower (model_config M) ! i"
    from predict_loop_towers[OF lp enumerate_nth_mem[OF i]] obtain v where
      "predict_tower M rand batch G E i ?tc = Inr v" by blast
    from this[unfolded predict_tower_eq_Inr] obtain ch T F U pos items base where
      ch: "labels batch ''channel'' = Some ch"
      and t: "attrs M (input_name ?tc @ ''_tower'') = Some T"
      and f: "G (input_name ?tc) = Some F"
      and u: "forward T (rand (2 * i + 1)) F (Some (where_eq ch i)) False = Inr U"
      and p: "index_select E (where_eq ch i) = Inr pos"
      and c: "cat0 [pos, slice_from E (length ch)] = Inr items"
      and sm: "sim M U items = Inr base"
      by blast
    from index_select_Inr[OF p] have rp: "rows pos = map (\<lambda>j. rows E ! j) (where_eq ch i)"
      and inr: "\<forall>j\<in>set (where_eq ch i). j < size0 E" by simp_all
    have ri: "rows items = map (\<lambda>j. rows E ! j) (where_eq ch i) @ drop (length ch) (rows E)"
      using cat0_pair_rows[OF c] rp by (simp add: slice_from_def)
    have sub: "set (rows items) \<subseteq> set (rows E)"
      unfolding ri using inr set_drop_subset[of "length ch" "rows E"]
      by (auto simp: size0_def)
    from ch t f u p rp c ri sub sm
    show "\<exists>ch T F U pos items base.
             labels batch ''channel'' = Some ch
           \<and> attrs M (input_name ?tc @ ''_tower'') = Some T
           \<and> G (input_name ?tc) = Some F
           \<and> forward T (rand (2 * i + 1)) F (Some (where_eq ch i)) False = Inr U
           \<and> index_select E (where_eq ch i) = Inr pos
           \<and> rows pos = map (\<lambda>j. rows E ! j) (where_eq ch i)
           \<and> cat0 [pos, slice_from E (length ch)] = Inr items
           \<and> rows items = map (\<lambda>j. rows E ! j) (where_eq ch i) @ drop (length ch) (rows E)
           \<and> set (rows items) \<subseteq> set (rows E)
           \<and> sim M U items = Inr base" by blast
  qed
  with g it fi e show ?thesis by blast
qed

subsection \<open>The constructors\<close>

lemma DSSMTower_init_Inr:
  assumes "DSSMTower_init ext no tc od sm us fg dims pfs nf = Inr T"
  shows "tower_output_dim T = od \<and> tower_similarity T = sm \<and> tower_use_senet T = us
       \<and> feature_group_dims T = dims \<and> perm_nflods T = nf
       \<and> mlp T = new_mlp ext no (sum_list dims) (mlp_config tc)
       \<and> (0 < od \<longrightarrow> (\<exists>L. output_layer T = Some L \<and> out_features L = nat od
                           \<and> in_features L = mlp_output_dim (mlp T)))
       \<and> (pfs = [] \<longrightarrow> perm_feats_index T = [])
       \<and> length (perm_feats_index T) = length pfs"
  using assms
  by (auto simp: DSSMTower_init_def Let_def bind_e_eq_Inr sequence_e_eq_Inr
      dest!: arg_cong[where f = length])

lemma DSSMTower_init_built:
  "DSSMTower_init ext no tc (output_dim cfg) (similarity cfg) us fg dims pfs nf = Inr T
     \<Longrightarrow> built_with cfg T"
  by (drule DSSMTower_init_Inr) (auto simp: built_with_def)

lemma init_user_towers_built:
  assumes "init_user_towers ext cfg eg perm ugs ts a = Inr a'"
    and "\<forall>k T. a k = Some T \<longrightarrow> built_with cfg T"
  shows "\<forall>k T. a' k = Some T \<longrightarrow> built_with cfg T"
  using assms
proof (induction ts arbitrary: a)
  case Nil
  then show ?case by simp
next
  case (Cons t ts)
  obtain i tc where t: "t = (i, tc)" by (cases t)
  from Cons.prems(1) t obtain T pfs nf where
    b: "DSSMTower_init ext i tc (output_dim cfg) (similarity cfg) (use_senet cfg) (ugs ! i)
          (group_dims eg (input_name tc)) pfs nf = Inr T"
    and rest: "init_user_towers ext cfg eg perm ugs ts (a(input_name tc @ ''_tower'' \<mapsto> T)) = Inr a'"
    by (auto simp: Let_def bind_e_eq_Inr)
  have "\<forall>k U. (a(input_name tc @ ''_tower'' \<mapsto> T)) k = Some U \<longrightarrow> built_with cfg U"
    using Cons.prems(2) DSSMTower_init_built[OF b] by auto
  from Cons.IH[OF rest this] show ?case .
qed

lemma init_user_towers_dom:
  assumes "init_user_towers ext cfg eg perm ugs ts a = Inr a'"
  shows "dom a' = dom a \<union> (\<lambda>(i, tc). input_name tc @ ''_tower'') ` set ts"
  using assms
proof (induction ts arbitrary: a)
  case Nil
  then show ?case by simp
next
  case (Cons t ts)
  obtain i tc where t: "t = (i, tc)" by (cases t)
  from Cons.prems(1) t obtain T where
    rest: "init_user_towers ext cfg eg perm ugs ts (a(input_name tc @ ''_tower'' \<mapsto> T)) = Inr a'"
    by (auto simp: Let_def bind_e_eq_Inr)
  from Cons.IH[OF rest] t show ?case by auto
qed

lemma FusionDSSMV2_init_Inr:
  assumes "FusionDSSMV2_init ext cfg feats ls = Inr M"
  shows "\<exists>ugs g a it.
      init_user_towers ext cfg (new_embedding_group ext feats (feature_groups cfg))
          (dict_of tower_name (user_tower_perm_feat cfg)) ugs
          (enumerate 0 (user_tower cfg)) Map.empty = Inr a
    \<and> DSSMTower_init ext (length (user_tower cfg)) (item_tower cfg) (output_dim cfg)
          (similarity cfg) (use_senet cfg) g
          (group_dims (new_embedding_group ext feats (feature_groups cfg))
             (input_name (item_tower cfg))) [] 0 = Inr it
    \<and> M = \<lparr>model_config = cfg,
            embedding_group = new_embedding_group ext feats (feature_groups cfg),
            user_tower_perm_feat_dict = dict_of tower_name (user_tower_perm_feat cfg),
            attrs = a(''item_tower'' \<mapsto> it), training = True, sim = base_sim ext\<rparr>"
  using assms unfolding FusionDSSMV2_init_def Let_def bind_e_eq_Inr sum.inject by blast

lemma rect_linear_forward: "linear_forward L x = Inr y \<Longrightarrow> rect y"
  by (auto simp: linear_forward_def rect_def list_all_iff split: if_splits)

lemma rect_F_normalize: "rect t \<Longrightarrow> rect (F_normalize t)"
  by (auto simp: F_normalize_def rect_def list_all_iff)

lemma forward_rect:
  assumes ok: "forward T rand F ix p = Inr out"
    and od: "0 < tower_output_dim T"
    and ol: "output_layer T = Some L"
  shows "rect out"
proof -
  from forward_InrD[OF ok] od ol obtain H Out where
    "linear_forward L H = Inr Out"
    and "(if tower_similarity T = COSINE then F_normalize Out else Out) = out"
    by auto
  then show ?thesis using rect_linear_forward[of L H Out] by (auto simp: rect_F_normalize)
qed

lemma forward_ncols:
  assumes ok: "forward T rand F ix p = Inr out"
    and od: "0 < tower_output_dim T"
    and ol: "output_layer T = Some L"
  shows "ncols out = out_features L"
proof -
  from forward_InrD[OF ok] od ol obtain H Out where
    "linear_forward L H = Inr Out"
    and "(if tower_similarity T = COSINE then F_normalize Out else Out) = out"
    by auto
  then show ?thesis using linear_forward_Inr[of L H Out] by (auto simp: ncols_normalize)
qed

lemma ex_init: "FusionDSSMV2_init ex_ext ex_config ex_features [] = Inr ex_model"
  by (simp add: FusionDSSMV2_init_def Let_def ex_ext_def ex_config_def ex_features_def
      dict_of_def lookup_def bind_e_def DSSMTower_init_def ex_model_def ex_tower_def
      ex_item_tower_def ex_eg_def ex_mlp_def ex_linear_def enumerate_eq_zip numeral_3_eq_3)

lemma init_attrs:
  assumes init: "FusionDSSMV2_init ext cfg feats ls = Inr M"
  shows "model_config M = cfg
       \<and> (\<forall>tc\<in>set (user_tower cfg). \<exists>T. attrs M (input_name tc @ ''_tower'') = Some T)
       \<and> (\<forall>a T. attrs M a = Some T \<longrightarrow> built_with cfg T)
       \<and> (\<exists>g it. DSSMTower_init ext (length (user_tower cfg)) (item_tower cfg) (output_dim cfg)
              (similarity cfg) (use_senet cfg) g
              (group_dims (embedding_group M) (input_name (item_tower cfg))) [] 0 = Inr it
            \<and> attrs M ''item_tower'' = Some it)"
proof -
  let ?eg = "new_embedding_group ext feats (feature_groups cfg)"
  from FusionDSSMV2_init_Inr[OF init] obtain ugs g a it where
    ut: "init_user_towers ext cfg ?eg (dict_of tower_name (user_tower_perm_feat cfg)) ugs
          (enumerate 0 (user_tower cfg)) Map.empty = Inr a"
    and it: "DSSMTower_init ext (length (user_tower cfg)) (item_tower cfg) (output_dim cfg)
          (similarity cfg) (use_senet cfg) g (group_dims ?eg (input_name (item_tower cfg))) [] 0
          = Inr it"
    and m: "M = \<lparr>model_config = cfg, embedding_group = ?eg,
            user_tower_perm_feat_dict = dict_of tower_name (user_tower_perm_feat cfg),
            attrs = a(''item_tower'' \<mapsto> it), training = True, sim = base_sim ext\<rparr>"
    by blast
  have ba: "\<forall>k T. a k = Some T \<longrightarrow> built_with cfg T"
    by (rule init_user_towers_built[OF ut]) simp
  have bi: "built_with cfg it" by (rule DSSMTower_init_built[OF it])
  have 1: "\<forall>a T. attrs M a = Some T \<longrightarrow> built_with cfg T"
    using ba bi by (auto simp: m)
  have "dom a = (\<lambda>(i, tc). input_name tc @ ''_tower'') ` set (enumerate 0 (user_tower cfg))"
    using init_user_towers_dom[OF ut] by simp
  also have "\<dots> = set (map (\<lambda>(i, tc). input_name tc @ ''_tower'') (enumerate 0 (user_tower cfg)))"
    by simp
  also have "\<dots> = set (map (\<lambda>tc. input_name tc @ ''_tower'') (user_tower cfg))"
    by (simp only: map_snd_enumerate)
  finally have da: "dom a = (\<lambda>tc. input_name tc @ ''_tower'') ` set (user_tower cfg)" by simp
  have 2: "\<forall>tc\<in>set (user_tower cfg). \<exists>T. attrs M (input_name tc @ ''_tower'') = Some T"
  proof
    fix tc assume "tc \<in> set (user_tower cfg)"
    then have "input_name tc @ ''_tower'' \<in> dom a" unfolding da by blast
    then show "\<exists>T. attrs M (input_name tc @ ''_tower'') = Some T" by (auto simp: m)
  qed
  have 3: "\<exists>g it. DSSMTower_init ext (length (user_tower cfg)) (item_tower cfg) (output_dim cfg)
              (similarity cfg) (use_senet cfg) g
              (group_dims (embedding_group M) (input_name (item_tower cfg))) [] 0 = Inr it
            \<and> attrs M ''item_tower'' = Some it"
    using it by (auto simp: m)
  from 1 2 3 m show ?thesis by simp
qed

text \<open>C7. In a model built by the constructor from a configuration with
  \<open>output_dim > 0\<close>, every user tower and the item tower exist, each has the
  \<open>output_dim\<close> of the configuration and an output layer of that many output features,
  and whatever forward of any of them returns is rectangular with that many columns: user
  and item embeddings have the same last dimension.\<close>

theorem towers_share_output_dim:
  assumes init: "FusionDSSMV2_init ext cfg feats ls = Inr M"
    and pos: "0 < output_dim cfg"
  shows "(\<forall>tc\<in>set (user_tower cfg). \<exists>T. attrs M (input_name tc @ ''_tower'') = Some T)
       \<and> (\<exists>T. attrs M ''item_tower'' = Some T)
       \<and> (\<forall>a T. attrs M a = Some T \<longrightarrow>
             tower_output_dim T = output_dim cfg
           \<and> (\<exists>L. output_layer T = Some L \<and> out_features L = nat (output_dim cfg))
           \<and> (\<forall>rand F ix p out. forward T rand F ix p = Inr out
                 \<longrightarrow> ncols out = nat (output_dim cfg) \<and> rect out))"
proof -
  note ia = init_attrs[OF init]
  have "\<forall>a T. attrs M a = Some T \<longrightarrow>
             tower_output_dim T = output_dim cfg
           \<and> (\<exists>L. output_layer T = Some L \<and> out_features L = nat (output_dim cfg))
           \<and> (\<forall>rand F ix p out. forward T rand F ix p = Inr out
                 \<longrightarrow> ncols out = nat (output_dim cfg) \<and> rect out)"
  proof (intro allI impI)
    fix a T assume "attrs M a = Some T"
    with ia have "built_with cfg T" by blast
    with pos obtain L where od: "tower_output_dim T = output_dim cfg"
      and ol: "output_layer T = Some L" and of': "out_features L = nat (output_dim cfg)"
      by (auto simp: built_with_def)
    from od pos have p: "0 < tower_output_dim T" by simp
    have "\<forall>rand F ix p out. forward T rand F ix p = Inr out
        \<longrightarrow> ncols out = nat (output_dim cfg) \<and> rect out"
      using forward_ncols[OF _ p ol] forward_rect[OF _ p ol] of' by auto
    with od ol of' show "tower_output_dim T = output_dim cfg
           \<and> (\<exists>L. output_layer T = Some L \<and> out_features L = nat (output_dim cfg))
           \<and> (\<forall>rand F ix p out. forward T rand F ix p = Inr out
                 \<longrightarrow> ncols out = nat (output_dim cfg) \<and> rect out)" by blast
  qed
  with ia show ?thesis by blast
qed

theorem towers_share_output_dim_witness:
  "FusionDSSMV2_init ex_ext ex_config ex_features [] = Inr ex_model
   \<and> attrs ex_model ''u_tower'' = Some ex_tower
   \<and> attrs ex_model ''item_tower'' = Some ex_item_tower
   \<and> tower_output_dim ex_tower = 2 \<and> tower_output_dim ex_item_tower = 2
   \<and> forward ex_tower ex_rand ex_feature None False = Inr \<lparr>ncols = 2, rows = [[1, 2], [4, 5]]\<rparr>
   \<and> ncols \<lparr>ncols = 2, rows = [[1, 2], [4, 5 :: real]]\<rparr> = nat 2
   \<and> forward ex_item_tower ex_rand ex_item_feature None False
       = Inr \<lparr>ncols = 2, rows = [[1, 0], [0, 1], [0, 0], [1, 1]]\<rparr>
   \<and> ncols \<lparr>ncols = 2, rows = [[1, 0], [0, 1], [0, 0], [1, 1 :: real]]\<rparr> = nat 2"
proof -
  have pos: "0 < output_dim ex_config" by (simp add: ex_config_def)
  have od: "output_dim ex_config = 2" by (simp add: ex_config_def)
  have u: "attrs ex_model ''u_tower'' = Some ex_tower"
    and it: "attrs ex_model ''item_tower'' = Some ex_item_tower"
    by (simp_all add: ex_model_def)
  from towers_share_output_dim[OF ex_init pos] have
    all: "\<And>a T. attrs ex_model a = Some T \<Longrightarrow>
             tower_output_dim T = output_dim ex_config
           \<and> (\<forall>rand F ix p out. forward T rand F ix p = Inr out
                 \<longrightarrow> ncols out = nat (output_dim ex_config) \<and> rect out)"
    by blast
  from all[OF u] ex_forward_plain[of ex_rand] have
    "tower_output_dim ex_tower = 2"
    "ncols \<lparr>ncols = 2, rows = [[1, 2], [4, 5 :: real]]\<rparr> = nat 2"
    unfolding od by blast+
  moreover from all[OF it] ex_item_emb[of ex_rand] have
    "tower_output_dim ex_item_tower = 2"
    "ncols \<lparr>ncols = 2, rows = [[1, 0], [0, 1], [0, 0], [1, 1 :: real]]\<rparr> = nat 2"
    unfolding od by blast+
  ultimately show ?thesis using ex_init u it ex_forward_plain[of ex_rand] ex_item_emb[of ex_rand]
    by blast
qed

text \<open>C2. A model has one item tower, the attribute \<open>item_tower\<close> that the constructor
  sets to the tower built from the item tower configuration. Every call of predict
  computes the item embeddings once, by that tower from the embedded features of the
  item group, and the similarity of every user channel is computed against rows of that
  one tensor: the positives are its rows at the channel's \<open>tower_index\<close>, the negatives
  its rows from the batch size on.\<close>

theorem single_item_tower:
  assumes init: "FusionDSSMV2_init ext cfg feats ls = Inr M"
    and ok: "predict (M\<lparr>training := tr\<rparr>) rand batch = Inr D"
  shows "\<exists>G g IT FI E.
      DSSMTower_init ext (length (user_tower cfg)) (item_tower cfg) (output_dim cfg)
          (similarity cfg) (use_senet cfg) g
          (group_dims (embedding_group M) (input_name (item_tower cfg))) [] 0 = Inr IT
    \<and> attrs M ''item_tower'' = Some IT
    \<and> eg_forward (embedding_group M) batch = Inr G
    \<and> G (input_name (item_tower cfg)) = Some FI
    \<and> forward IT (rand 0) FI None False = Inr E
    \<and> (\<forall>i<length (user_tower cfg).
          \<exists>ch T F U pos items base.
             labels batch ''channel'' = Some ch
           \<and> attrs M (input_name (user_tower cfg ! i) @ ''_tower'') = Some T
           \<and> G (input_name (user_tower cfg ! i)) = Some F
           \<and> forward T (rand (2 * i + 1)) F (Some (where_eq ch i)) False = Inr U
           \<and> index_select E (where_eq ch i) = Inr pos
           \<and> rows pos = map (\<lambda>j. rows E ! j) (where_eq ch i)
           \<and> cat0 [pos, slice_from E (length ch)] = Inr items
           \<and> rows items = map (\<lambda>j. rows E ! j) (where_eq ch i) @ drop (length ch) (rows E)
           \<and> set (rows items) \<subseteq> set (rows E)
           \<and> sim M U items = Inr base)"
proof -
  from init_attrs[OF init] obtain g it where
    mc: "model_config M = cfg"
    and di: "DSSMTower_init ext (length (user_tower cfg)) (item_tower cfg) (output_dim cfg)
              (similarity cfg) (use_senet cfg) g
              (group_dims (embedding_group M) (input_name (item_tower cfg))) [] 0 = Inr it"
    and ai: "attrs M ''item_tower'' = Some it"
    by blast
  have sel: "embedding_group (M\<lparr>training := tr\<rparr>) = embedding_group M"
    "attrs (M\<lparr>training := tr\<rparr>) = attrs M"
    "model_config (M\<lparr>training := tr\<rparr>) = cfg"
    "sim (M\<lparr>training := tr\<rparr>) = sim M"
    by (simp_all add: mc)
  from predict_item_rows[OF ok, unfolded sel] obtain G IT FI E where
    g: "eg_forward (embedding_group M) batch = Inr G"
    and it: "attrs M ''item_tower'' = Some IT"
    and fi: "G (input_name (item_tower cfg)) = Some FI"
    and e: "forward IT (rand 0) FI None False = Inr E"
    and al: "\<forall>i<length (user_tower cfg).
          \<exists>ch T F U pos items base.
             labels batch ''channel'' = Some ch
           \<and> attrs M (input_name (user_tower cfg ! i) @ ''_tower'') = Some T
           \<and> G (input_name (user_tower cfg ! i)) = Some F
           \<and> forward T (rand (2 * i + 1)) F (Some (where_eq ch i)) False = Inr U
           \<and> index_select E (where_eq ch i) = Inr pos
           \<and> rows pos = map (\<lambda>j. rows E ! j) (where_eq ch i)
           \<and> cat0 [pos, slice_from E (length ch)] = Inr items
           \<and> rows items = map (\<lambda>j. rows E ! j) (where_eq ch i) @ drop (length ch) (rows E)
           \<and> set (rows items) \<subseteq> set (rows E)
           \<and> sim M U items = Inr base"
    by blast
  from it ai have "IT = it" by simp
  with di ai g fi e al show ?thesis by blast
qed

theorem single_item_tower_witness:
  "\<exists>E pos items.
      attrs ex_model ''item_tower'' = Some ex_item_tower
    \<and> forward ex_item_tower ex_rand ex_item_feature None False = Inr E
    \<and> index_select E (where_eq [0, 1, 0] 0) = Inr pos
    \<and> cat0 [pos, slice_from E 3] = Inr items
    \<and> rows items = map (\<lambda>j. rows E ! j) (where_eq [0, 1, 0] 0) @ drop 3 (rows E)
    \<and> rows items = [[1, 0], [0, 0], [1, 1]]"
proof -
  have tr: "ex_model\<lparr>training := True\<rparr> = ex_model" by (simp add: ex_model_def)
  have ok: "predict (ex_model\<lparr>training := True\<rparr>) (\<lambda>c. ex_rand) ex_batch
     = Inr [''similarity_u'' \<mapsto>
            \<lparr>ncols = 5, rows = [[1 / 2, 0, 3 / 2, 1 / 2, 1 / 2], [2, 0, 9 / 2, 0, 0]]\<rparr>]"
    unfolding tr by (rule ex_predict)
  have len: "length (user_tower ex_config) = 1" by (simp add: ex_config_def)
  from single_item_tower[OF ex_init ok] obtain G IT FI E where
    it: "attrs ex_model ''item_tower'' = Some IT"
    and g: "eg_forward (embedding_group ex_model) ex_batch = Inr G"
    and fi: "G (input_name (item_tower ex_config)) = Some FI"
    and e: "forward IT ex_rand FI None False = Inr E"
    and al: "\<forall>i<length (user_tower ex_config).
          \<exists>ch T F U pos items base.
             labels ex_batch ''channel'' = Some ch
           \<and> attrs ex_model (input_name (user_tower ex_config ! i) @ ''_tower'') = Some T
           \<and> G (input_name (user_tower ex_config ! i)) = Some F
           \<and> forward T ex_rand F (Some (where_eq ch i)) False = Inr U
           \<and> index_select E (where_eq ch i) = Inr pos
           \<and> rows pos = map (\<lambda>j. rows E ! j) (where_eq ch i)
           \<and> cat0 [pos, slice_from E (length ch)] = Inr items
           \<and> rows items = map (\<lambda>j. rows E ! j) (where_eq ch i) @ drop (length ch) (rows E)
           \<and> set (rows items) \<subseteq> set (rows E)
           \<and> sim ex_model U items = Inr base"
    by blast
  from al[rule_format, of 0] len obtain ch pos items where
    ch: "labels ex_batch ''channel'' = Some ch"
    and p: "index_select E (where_eq ch 0) = Inr pos"
    and c: "cat0 [pos, slice_from E (length ch)] = Inr items"
    and r: "rows items = map (\<lambda>j. rows E ! j) (where_eq ch 0) @ drop (length ch) (rows E)"
    by auto
  from g have G: "G = data ex_batch" by (simp add: ex_model_def ex_eg_def)
  from ch have C: "ch = [0, 1, 0]" by (simp add: ex_batch_def)
  from it have T: "IT = ex_item_tower" by (simp add: ex_model_def)
  from fi G have F: "FI = ex_item_feature" by (simp add: ex_config_def ex_batch_def)
  from e have E: "E = \<lparr>ncols = 2, rows = [[1, 0], [0, 1], [0, 0], [1, 1]]\<rparr>"
    unfolding T F ex_item_emb by simp
  have l3: "length [0, 1, 0 :: int] = 3" by simp
  from r have "rows items = [[1, 0], [0, 0], [1, 1]]"
    unfolding C ex_where E by simp
  with it e p c r show ?thesis unfolding C T F l3 by blast
qed

subsection \<open>The permuted similarity block\<close>











end
